theory Spec2Isabelle
  imports Main "HOL-Library.Sublist"
begin

section \<open>The browser session\<close>

text \<open>
  The testers drive a browser through Selenium. The session is the external collaborator
  of the code: it is modelled as a deterministic state that only the program's own
  commands change (no window opens and no element appears between two commands).
  Every command is recorded in a trace, and every wait and sleep advances a clock
  (milliseconds) by the time the program spends in it.
\<close>

type_synonym handle = string
type_synonym locator = "string \<times> string"

text \<open>Selenium's \<open>By\<close> constants are plain strings.\<close>

definition XPATH :: string where "XPATH = ''xpath''"
definition CSS_SELECTOR :: string where "CSS_SELECTOR = ''css selector''"
definition TAG_NAME :: string where "TAG_NAME = ''tag name''"
definition LINK_TEXT :: string where "LINK_TEXT = ''link text''"

text \<open>
  The exceptions of the model. In Selenium the first four are \<open>WebDriverException\<close>
  or a subclass of it, so \<open>except WebDriverException\<close> and
  \<open>contextlib.suppress(WebDriverException)\<close> catch all four, and
  \<open>except TimeoutException\<close> catches the first only. \<open>IndexError\<close> is Python's own
  and is caught by neither.
\<close>

datatype exn =
    TimeoutException
  | NoSuchWindowException
  | NoSuchElementException
  | WebDriverException
  | IndexError

fun webdriver_error :: "exn \<Rightarrow> bool" where
  "webdriver_error IndexError = False"
| "webdriver_error _ = True"

datatype cmd =
    CurrentWindowHandle
  | WindowHandles
  | SwitchTo handle
  | Close
  | Title
  | CurrentUrl
  | Get string
  | Refresh
  | FindElement locator
  | FindElements locator
  | WaitClickable locator nat
  | WaitPresent locator nat
  | WaitVisible locator nat
  | WaitEnabled locator nat
  | Click locator
  | OffsetClick
  | ScrollIntoView locator
  | ScriptClick locator
  | IsDisplayed locator
  | IsEnabled locator
  | GetAttribute locator string

record element =
  displayed :: bool
  enabled :: bool
  intercepted :: bool
  attribute :: "string \<Rightarrow> string option"

record page =
  url :: string
  title :: string
  dom :: "locator \<Rightarrow> element list"

datatype level = DEBUG | INFO | WARNING | ERROR

datatype event =
    Sent cmd
  | Logged level string
  | Printed string string

record browser =
  handles :: "handle list"
  focus :: handle
  pages :: "handle \<Rightarrow> page"
  pending :: "handle list"
  fault :: "handle \<Rightarrow> cmd \<Rightarrow> bool"
  trace :: "event list"
  clock :: nat

text \<open>
  \<open>handles\<close> is the enumeration order of the open windows, \<open>focus\<close> the window
  commands are sent to (it dangles once that window is closed), \<open>pending\<close> the
  windows the next click on the page opens, and \<open>fault h c\<close> says that command \<open>c\<close>,
  sent while window \<open>h\<close> has the focus, fails with a session-communication error.
\<close>

type_synonym 'a outcome = "(exn + 'a) \<times> browser"

definition emit :: "event \<Rightarrow> browser \<Rightarrow> browser" where
  "emit e b = b\<lparr>trace := trace b @ [e]\<rparr>"

definition sleep :: "nat \<Rightarrow> browser \<Rightarrow> browser" where
  "sleep ms b = b\<lparr>clock := clock b + ms\<rparr>"

definition has_window :: "browser \<Rightarrow> bool" where
  "has_window b = (focus b \<in> set (handles b))"

definition here :: "browser \<Rightarrow> page" where
  "here b = pages b (focus b)"

text \<open>
  A command is first recorded; it raises \<open>WebDriverException\<close> when the session
  fails on it, and \<open>NoSuchWindowException\<close> when it needs the focused window and that
  window is gone.
\<close>

definition command :: "cmd \<Rightarrow> bool \<Rightarrow> (browser \<Rightarrow> 'a outcome) \<Rightarrow> browser \<Rightarrow> 'a outcome" where
  "command c needs_window run b =
     (let b' = emit (Sent c) b in
      if fault b (focus b) c then (Inl WebDriverException, b')
      else if needs_window then
        (if has_window b then run b' else (Inl NoSuchWindowException, b'))
      else run b')"

definition window_handles :: "browser \<Rightarrow> handle list outcome" where
  "window_handles = command WindowHandles False (\<lambda>b. (Inr (handles b), b))"

definition current_window_handle :: "browser \<Rightarrow> handle outcome" where
  "current_window_handle = command CurrentWindowHandle True (\<lambda>b. (Inr (focus b), b))"

definition switch_to_window :: "handle \<Rightarrow> browser \<Rightarrow> unit outcome" where
  "switch_to_window h = command (SwitchTo h) False
     (\<lambda>b. if h \<in> set (handles b) then (Inr (), b\<lparr>focus := h\<rparr>)
          else (Inl NoSuchWindowException, b))"

definition close :: "browser \<Rightarrow> unit outcome" where
  "close = command Close True
     (\<lambda>b. (Inr (), b\<lparr>handles := removeAll (focus b) (handles b)\<rparr>))"

definition get_title :: "browser \<Rightarrow> string outcome" where
  "get_title = command Title True (\<lambda>b. (Inr (title (here b)), b))"

definition current_url :: "browser \<Rightarrow> string outcome" where
  "current_url = command CurrentUrl True (\<lambda>b. (Inr (url (here b)), b))"

definition get :: "string \<Rightarrow> browser \<Rightarrow> unit outcome" where
  "get u = command (Get u) True
     (\<lambda>b. (Inr (), b\<lparr>pages := (pages b)(focus b := (here b)\<lparr>url := u\<rparr>)\<rparr>))"

definition refresh :: "browser \<Rightarrow> unit outcome" where
  "refresh = command Refresh True (\<lambda>b. (Inr (), b))"

definition find_element :: "locator \<Rightarrow> browser \<Rightarrow> element outcome" where
  "find_element l = command (FindElement l) True
     (\<lambda>b. case dom (here b) l of [] \<Rightarrow> (Inl NoSuchElementException, b)
          | e # _ \<Rightarrow> (Inr e, b))"

definition find_elements :: "locator \<Rightarrow> browser \<Rightarrow> element list outcome" where
  "find_elements l = command (FindElements l) True (\<lambda>b. (Inr (dom (here b) l), b))"

text \<open>
  \<open>WebDriverWait(driver, t).until(condition)\<close>: the condition is looked up on the first
  element the locator finds. A missing element is retried until the timeout, any other
  exception leaves the wait at once. On a page that does not change, the wait returns
  at once or uses its whole timeout.
\<close>

definition wait_until :: "cmd \<Rightarrow> locator \<Rightarrow> nat \<Rightarrow> (element \<Rightarrow> bool) \<Rightarrow> browser \<Rightarrow> element outcome" where
  "wait_until c l t ok = command c True
     (\<lambda>b. case dom (here b) l of
            [] \<Rightarrow> (Inl TimeoutException, sleep t b)
          | e # _ \<Rightarrow> if ok e then (Inr e, b) else (Inl TimeoutException, sleep t b))"

definition wait_clickable :: "locator \<Rightarrow> nat \<Rightarrow> browser \<Rightarrow> element outcome" where
  "wait_clickable l t = wait_until (WaitClickable l t) l t (\<lambda>e. displayed e \<and> enabled e)"

definition wait_present :: "locator \<Rightarrow> nat \<Rightarrow> browser \<Rightarrow> element outcome" where
  "wait_present l t = wait_until (WaitPresent l t) l t (\<lambda>e. True)"

definition wait_visible :: "locator \<Rightarrow> nat \<Rightarrow> browser \<Rightarrow> element outcome" where
  "wait_visible l t = wait_until (WaitVisible l t) l t displayed"

definition open_pending :: "browser \<Rightarrow> browser" where
  "open_pending b = b\<lparr>handles := handles b @ pending b, pending := []\<rparr>"

definition click :: "locator \<Rightarrow> element \<Rightarrow> browser \<Rightarrow> unit outcome" where
  "click l e = command (Click l) True
     (\<lambda>b. if intercepted e then (Inl WebDriverException, b)
          else if displayed e then (Inr (), open_pending b)
          else (Inl WebDriverException, b))"

definition offset_click :: "browser \<Rightarrow> unit outcome" where
  "offset_click = command OffsetClick True (\<lambda>b. (Inr (), open_pending b))"

definition scroll_into_view :: "locator \<Rightarrow> browser \<Rightarrow> unit outcome" where
  "scroll_into_view l = command (ScrollIntoView l) True (\<lambda>b. (Inr (), b))"

definition script_click :: "locator \<Rightarrow> browser \<Rightarrow> unit outcome" where
  "script_click l = command (ScriptClick l) True (\<lambda>b. (Inr (), open_pending b))"

definition is_displayed :: "locator \<Rightarrow> element \<Rightarrow> browser \<Rightarrow> bool outcome" where
  "is_displayed l e = command (IsDisplayed l) True (\<lambda>b. (Inr (displayed e), b))"

definition is_enabled :: "locator \<Rightarrow> element \<Rightarrow> browser \<Rightarrow> bool outcome" where
  "is_enabled l e = command (IsEnabled l) True (\<lambda>b. (Inr (enabled e), b))"

definition get_attribute :: "locator \<Rightarrow> element \<Rightarrow> string \<Rightarrow> browser \<Rightarrow> string option outcome" where
  "get_attribute l e a = command (GetAttribute l a) True (\<lambda>b. (Inr (attribute e a), b))"

text \<open>\<open>with contextlib.suppress(WebDriverException): ...\<close>\<close>

definition suppress :: "(browser \<Rightarrow> unit outcome) \<Rightarrow> browser \<Rightarrow> unit outcome" where
  "suppress body b =
     (case body b of
        (Inl e, b1) \<Rightarrow> (if webdriver_error e then (Inr (), b1) else (Inl e, b1))
      | (Inr u, b1) \<Rightarrow> (Inr u, b1))"

section \<open>Window reconciliation\<close>

subsection \<open>\<open>close_unexpected_windows\<close> (edge\_ad\_render\_tester.py)\<close>

text \<open>
  The loop over the snapshot \<open>current_handles\<close>: every handle other than
  \<open>main_handle\<close> is switched to, its title is logged and it is closed. Nothing is
  caught, so the first exception ends the loop and the call.
\<close>

fun close_others :: "handle \<Rightarrow> handle list \<Rightarrow> browser \<Rightarrow> unit outcome" where
  "close_others main_handle [] b = (Inr (), b)"
| "close_others main_handle (h # hs) b =
     (if h = main_handle then close_others main_handle hs b
      else (case switch_to_window h b of
        (Inl e, b1) \<Rightarrow> (Inl e, b1)
      | (Inr _, b1) \<Rightarrow>
          (case get_title b1 of
             (Inl e, b2) \<Rightarrow> (Inl e, b2)
           | (Inr t, b2) \<Rightarrow>
               (case close (emit (Logged INFO (''Closing unexpected window: '' @
                              (if t = [] then ''untitled'' else t))) b2) of
                  (Inl e, b3) \<Rightarrow> (Inl e, b3)
                | (Inr _, b3) \<Rightarrow> close_others main_handle hs b3))))"

definition focus_main :: "handle \<Rightarrow> browser \<Rightarrow> handle outcome" where
  "focus_main main_handle b =
     (case switch_to_window main_handle b of
        (Inl e, b1) \<Rightarrow> (Inl e, b1)
      | (Inr _, b1) \<Rightarrow> (Inr main_handle, b1))"

text \<open>
  The test \<open>main_handle not in driver.window_handles and driver.window_handles\<close> reads
  the enumeration once, and a second time only when the first operand is true;
  \<open>driver.window_handles[0]\<close> is a third read (\<open>switch_to_first\<close>).
\<close>

definition switch_to_first :: "handle list \<Rightarrow> browser \<Rightarrow> handle outcome" where
  "switch_to_first hs b =
     (case hs of
        [] \<Rightarrow> (Inl IndexError, b)
      | new_main # _ \<Rightarrow>
          (case switch_to_window new_main b of
             (Inl e, b1) \<Rightarrow> (Inl e, b1)
           | (Inr _, b1) \<Rightarrow>
               (Inr new_main,
                emit (Logged WARNING
                  (''Main window changed; switched control to handle '' @ new_main)) b1)))"

definition promote :: "handle \<Rightarrow> browser \<Rightarrow> handle outcome" where
  "promote main_handle b =
     (case window_handles b of
        (Inl e, b1) \<Rightarrow> (Inl e, b1)
      | (Inr hs1, b1) \<Rightarrow>
          (if main_handle \<in> set hs1 then focus_main main_handle b1
           else (case window_handles b1 of
             (Inl e, b2) \<Rightarrow> (Inl e, b2)
           | (Inr hs2, b2) \<Rightarrow>
               (if hs2 = [] then focus_main main_handle b2
                else (case window_handles b2 of
                  (Inl e, b3) \<Rightarrow> (Inl e, b3)
                | (Inr hs3, b3) \<Rightarrow> switch_to_first hs3 b3)))))"

definition close_unexpected_windows :: "handle \<Rightarrow> browser \<Rightarrow> handle outcome" where
  "close_unexpected_windows main_handle b =
     (case window_handles b of
        (Inl e, b1) \<Rightarrow> (Inl e, b1)
      | (Inr current_handles, b1) \<Rightarrow>
          (case close_others main_handle current_handles b1 of
             (Inl e, b2) \<Rightarrow> (Inl e, b2)
           | (Inr _, b2) \<Rightarrow> promote main_handle b2))"

subsection \<open>\<open>close_additional_windows\<close> (monetag\_ad\_tester.py)\<close>

text \<open>
  The body under \<open>contextlib.suppress\<close>: \<open>switch_to.window(handle)\<close>, then
  \<open>close()\<close>, which is skipped when the switch raised.
\<close>

definition switch_and_close :: "handle \<Rightarrow> browser \<Rightarrow> unit outcome" where
  "switch_and_close h b =
     (case switch_to_window h b of
        (Inl e, b1) \<Rightarrow> (Inl e, b1)
      | (Inr _, b1) \<Rightarrow> close b1)"

fun close_secondary :: "handle \<Rightarrow> handle list \<Rightarrow> browser \<Rightarrow> unit outcome" where
  "close_secondary primary_handle [] b = (Inr (), b)"
| "close_secondary primary_handle (h # hs) b =
     (if h = primary_handle then close_secondary primary_handle hs b
      else (case suppress (switch_and_close h) b of
        (Inl e, b1) \<Rightarrow> (Inl e, b1)
      | (Inr _, b1) \<Rightarrow> close_secondary primary_handle hs b1))"

definition close_additional_windows :: "browser \<Rightarrow> unit outcome" where
  "close_additional_windows b =
     (case current_window_handle b of
        (Inl e, b1) \<Rightarrow> (if webdriver_error e then (Inr (), b1) else (Inl e, b1))
      | (Inr primary_handle, b1) \<Rightarrow>
          (case window_handles b1 of
             (Inl e, b2) \<Rightarrow> (Inl e, b2)
           | (Inr hs, b2) \<Rightarrow>
               (case close_secondary primary_handle hs b2 of
                  (Inl e, b3) \<Rightarrow> (Inl e, b3)
                | (Inr _, b3) \<Rightarrow> suppress (switch_to_window primary_handle) b3)))"

section \<open>Overlay dismissal\<close>

subsection \<open>\<open>dismiss_initial_overlay\<close> (monetag\_ad\_tester.py)\<close>

text \<open>
  Locator text beyond ASCII is written as its UTF-8 bytes. Waits and sleeps are in
  milliseconds: \<open>OVERLAY_WAIT = 6\<close> seconds.
\<close>

definition cross_glyph :: string where
  "cross_glyph = [CHR 0xC3, CHR 0xA2, CHR 0xC5, CHR 0x93, CHR 0xE2, CHR 0x80, CHR 0xA2]"

definition CLOSE_BUTTON_LOCATORS :: "locator list" where
  "CLOSE_BUTTON_LOCATORS =
     [(XPATH, ''//*[@id='' @ [CHR 0x27] @ ''root'' @ [CHR 0x27] @ '']/div/div[2]/div/button''),
      (XPATH, ''//button[@aria-label='' @ [CHR 0x27] @ ''Close'' @ [CHR 0x27] @ '']''),
      (XPATH, ''/html/body/div/div/div[2]/div/button''),
      (CSS_SELECTOR, ''button[aria-label='' @ [CHR 0x27] @ ''Close'' @ [CHR 0x27] @ '']''),
      (XPATH, ''//button[contains(normalize-space(.),'' @ [CHR 0x27] @ cross_glyph @
                [CHR 0x27] @ '')]'')]"

definition OVERLAY_WAIT :: nat where
  "OVERLAY_WAIT = 6000"

definition BODY :: locator where
  "BODY = (TAG_NAME, ''body'')"

text \<open>
  The text of an exception. Selenium renders \<open>str(exc)\<close> as \<open>Message: ...\<close>, so it is
  never empty.
\<close>

fun str_exn :: "exn \<Rightarrow> string" where
  "str_exn TimeoutException = ''Message: timeout''"
| "str_exn NoSuchWindowException = ''Message: no such window''"
| "str_exn NoSuchElementException = ''Message: no such element''"
| "str_exn WebDriverException = ''Message: session failure''"
| "str_exn IndexError = ''list index out of range''"

definition overlay_label :: "string \<Rightarrow> string" where
  "overlay_label debug_label =
     (if debug_label = [] then ''[overlay]'' else ''[overlay '' @ debug_label @ '']'')"

definition log :: "string \<Rightarrow> string \<Rightarrow> browser \<Rightarrow> browser" where
  "log label message b = emit (Printed label message) b"

definition show_locator :: "locator \<Rightarrow> string" where
  "show_locator l = fst l @ '' => '' @ snd l"

text \<open>
  Step 1, the \<open>for\<close> loop over the locators: \<open>True\<close> when a button was clicked (the
  function returns), \<open>False\<close> when the loop ran to its end.
\<close>

definition locator_failed :: "string \<Rightarrow> locator \<Rightarrow> exn \<Rightarrow> browser \<Rightarrow> browser" where
  "locator_failed label l e b =
     (if e = TimeoutException then log label (''Locator timed out: '' @ show_locator l) b
      else log label (''Locator click failed: '' @ show_locator l @ '' ('' @ str_exn e @ '')'') b)"

fun locator_pass :: "string \<Rightarrow> locator list \<Rightarrow> browser \<Rightarrow> bool outcome" where
  "locator_pass label [] b = (Inr False, b)"
| "locator_pass label (l # ls) b =
     (case wait_clickable l OVERLAY_WAIT b of
        (Inl e, b1) \<Rightarrow>
          (if webdriver_error e then locator_pass label ls (locator_failed label l e b1)
           else (Inl e, b1))
      | (Inr button, b1) \<Rightarrow>
          (case click l button b1 of
             (Inl e, b2) \<Rightarrow>
               (if webdriver_error e then locator_pass label ls (locator_failed label l e b2)
                else (Inl e, b2))
           | (Inr _, b2) \<Rightarrow>
               (Inr True, log label (''Closed via locator '' @ show_locator l) b2)))"

text \<open>
  The synthetic click: on the body, or at the offset \<open>(10, 10)\<close> when that fails.
  \<open>False\<close> when both failed (the function returns).
\<close>

definition offset_fallback :: "string \<Rightarrow> exn \<Rightarrow> browser \<Rightarrow> bool outcome" where
  "offset_fallback label e b =
     (if webdriver_error e then
        (case offset_click
                (log label (''Body click failed: '' @ str_exn e @ ''; trying offset click.'') b) of
           (Inl e1, b1) \<Rightarrow>
             (if webdriver_error e1
              then (Inr False, log label (''Offset click failed: '' @ str_exn e1) b1)
              else (Inl e1, b1))
         | (Inr _, b1) \<Rightarrow> (Inr True, sleep 500 b1))
      else (Inl e, b))"

definition body_click :: "string \<Rightarrow> browser \<Rightarrow> bool outcome" where
  "body_click label b =
     (case find_element BODY b of
        (Inl e, b1) \<Rightarrow> offset_fallback label e b1
      | (Inr body, b1) \<Rightarrow>
          (case click BODY body b1 of
             (Inl e, b2) \<Rightarrow> offset_fallback label e b2
           | (Inr _, b2) \<Rightarrow> (Inr True, sleep 500 b2)))"

text \<open>
  \<open>list(after_handles - before_handles)\<close>. Python leaves the order of a set open; the
  model lists the new handles in enumeration order.
\<close>

definition set_difference :: "handle list \<Rightarrow> handle list \<Rightarrow> handle list" where
  "set_difference after_handles before_handles =
     filter (\<lambda>h. h \<notin> set before_handles) (remdups after_handles)"

definition close_new_window :: "string \<Rightarrow> handle \<Rightarrow> browser \<Rightarrow> unit outcome" where
  "close_new_window label h b =
     (case switch_to_window h b of
        (Inl e, b1) \<Rightarrow> (Inl e, b1)
      | (Inr _, b1) \<Rightarrow>
          (case current_url b1 of
             (Inl e, b2) \<Rightarrow> (Inl e, b2)
           | (Inr u, b2) \<Rightarrow> close (log label (''Closing new window: '' @ u) b2)))"

fun close_new_windows :: "string \<Rightarrow> handle list \<Rightarrow> browser \<Rightarrow> unit outcome" where
  "close_new_windows label [] b = (Inr (), b)"
| "close_new_windows label (h # hs) b =
     (case suppress (close_new_window label h) b of
        (Inl e, b1) \<Rightarrow> (Inl e, b1)
      | (Inr _, b1) \<Rightarrow> close_new_windows label hs b1)"

definition reload :: "string \<Rightarrow> browser \<Rightarrow> unit outcome" where
  "reload u b =
     (case get u b of
        (Inl e, b1) \<Rightarrow> (Inl e, b1)
      | (Inr _, b1) \<Rightarrow> (Inr (), sleep 800 b1))"

text \<open>The last \<open>for\<close> loop: find each button at once, without a wait, and click it.\<close>

fun retry_pass :: "string \<Rightarrow> locator list \<Rightarrow> browser \<Rightarrow> unit outcome" where
  "retry_pass label [] b = (Inr (), b)"
| "retry_pass label (l # ls) b =
     (case find_element l b of
        (Inl e, b1) \<Rightarrow>
          (if webdriver_error e
           then retry_pass label ls
                  (log label (''Retry close failed for '' @ fst l @ '': '' @ str_exn e) b1)
           else (Inl e, b1))
      | (Inr button, b1) \<Rightarrow>
          (case click l button b1 of
             (Inl e, b2) \<Rightarrow>
               (if webdriver_error e
                then retry_pass label ls
                       (log label (''Retry close failed for '' @ fst l @ '': '' @ str_exn e) b2)
                else (Inl e, b2))
           | (Inr _, b2) \<Rightarrow>
               (Inr (), log label (''Closed after retry via '' @ fst l @ ''.'') b2)))"

text \<open>
  Everything after the synthetic click: the second snapshot, closing the new windows,
  the switch back, the reload and the retry.
\<close>

definition after_click ::
  "string \<Rightarrow> locator list \<Rightarrow> handle \<Rightarrow> string \<Rightarrow> handle list \<Rightarrow> browser \<Rightarrow> unit outcome" where
  "after_click label locators primary_handle current before_handles b =
     (case window_handles b of
        (Inl e, b1) \<Rightarrow> (Inl e, b1)
      | (Inr after_handles, b1) \<Rightarrow>
          (let new_handles = set_difference after_handles before_handles in
           case close_new_windows label new_handles b1 of
             (Inl e, b2) \<Rightarrow> (Inl e, b2)
           | (Inr _, b2) \<Rightarrow>
               (case suppress (switch_to_window primary_handle) b2 of
                  (Inl e, b3) \<Rightarrow> (Inl e, b3)
                | (Inr _, b3) \<Rightarrow>
                    (if new_handles = [] then retry_pass label locators b3
                     else (case suppress (reload current)
                                  (log label ''Reloading page after closing popup(s).'' b3) of
                       (Inl e, b4) \<Rightarrow> (Inl e, b4)
                     | (Inr _, b4) \<Rightarrow> retry_pass label locators b4)))))"

text \<open>
  The fallback from \<open>current_url = driver.current_url\<close> on. The two reads before the
  click and the one after it are outside every \<open>try\<close>.
\<close>

definition click_fallback ::
  "string \<Rightarrow> locator list \<Rightarrow> handle \<Rightarrow> browser \<Rightarrow> unit outcome" where
  "click_fallback label locators primary_handle b =
     (case current_url b of
        (Inl e, b1) \<Rightarrow> (Inl e, b1)
      | (Inr current, b1) \<Rightarrow>
          (case window_handles b1 of
             (Inl e, b2) \<Rightarrow> (Inl e, b2)
           | (Inr before_handles, b2) \<Rightarrow>
               (case body_click label
                       (log label ''Attempting body click to dismiss blocking overlay.'' b2) of
                  (Inl e, b3) \<Rightarrow> (Inl e, b3)
                | (Inr clicked, b3) \<Rightarrow>
                    (if clicked
                     then after_click label locators primary_handle current before_handles b3
                     else (Inr (), b3)))))"

text \<open>The function with its locator list as a parameter, then as the module configures it.\<close>

definition dismiss_overlay_with :: "locator list \<Rightarrow> string \<Rightarrow> browser \<Rightarrow> unit outcome" where
  "dismiss_overlay_with locators debug_label b =
     (let label = overlay_label debug_label in
      case current_window_handle b of
        (Inl e, b1) \<Rightarrow> (if webdriver_error e then (Inr (), b1) else (Inl e, b1))
      | (Inr primary_handle, b1) \<Rightarrow>
          (case locator_pass label locators b1 of
             (Inl e, b2) \<Rightarrow> (Inl e, b2)
           | (Inr closed, b2) \<Rightarrow>
               (if closed then (Inr (), b2)
                else click_fallback label locators primary_handle b2)))"

definition dismiss_initial_overlay :: "string \<Rightarrow> browser \<Rightarrow> unit outcome" where
  "dismiss_initial_overlay = dismiss_overlay_with CLOSE_BUTTON_LOCATORS"

subsection \<open>\<open>close_ad_popup_if_present\<close> (edge\_ad\_render\_tester.py)\<close>

definition zakryt :: string where
  "zakryt = [CHR 0xD0, CHR 0x97, CHR 0xD0, CHR 0xB0, CHR 0xD0, CHR 0xBA, CHR 0xD1, CHR 0x80,
             CHR 0xD1, CHR 0x8B, CHR 0xD1, CHR 0x82, CHR 0xD1, CHR 0x8C]"

definition zakryt_upper :: string where
  "zakryt_upper = [CHR 0xD0, CHR 0x97, CHR 0xD0, CHR 0x90, CHR 0xD0, CHR 0x9A, CHR 0xD0, CHR 0xA0,
                   CHR 0xD0, CHR 0xAB, CHR 0xD0, CHR 0xA2, CHR 0xD0, CHR 0xAC]"

definition zakryt_lower :: string where
  "zakryt_lower = [CHR 0xD0, CHR 0xB7, CHR 0xD0, CHR 0xB0, CHR 0xD0, CHR 0xBA, CHR 0xD1, CHR 0x80,
                   CHR 0xD1, CHR 0x8B, CHR 0xD1, CHR 0x82, CHR 0xD1, CHR 0x8C]"

definition popup_locators :: "locator list" where
  "popup_locators =
     [(XPATH, ''/html/body/div[3]/div/div[2]/span''),
      (XPATH, ''/html/body/div/div''),
      (XPATH, ''//span[normalize-space()='' @ [CHR 0x27] @ zakryt @ [CHR 0x27] @ '']'')]"

definition fallback_locator :: locator where
  "fallback_locator =
     (XPATH, ''//span[contains(@class, '' @ [CHR 0x27] @ ''close'' @ [CHR 0x27] @
             '') and contains(translate(text(),'' @ [CHR 0x27] @ zakryt_upper @ [CHR 0x27] @
             '','' @ [CHR 0x27] @ zakryt_lower @ [CHR 0x27] @ ''),'' @ [CHR 0x27] @
             zakryt_lower @ [CHR 0x27] @ '')]'')"

definition POPUP_WAIT :: nat where
  "POPUP_WAIT = 2000"

text \<open>
  \<open>"%s" % (locator,)\<close>: the \<open>str\<close> of the locator tuple, which is the \<open>repr\<close> of its
  two strings. \<open>repr\<close> quotes with \<open>"\<close> when the text holds a \<open>'\<close> and no \<open>"\<close>, and
  with \<open>'\<close> otherwise; it escapes the backslash, the quote it uses and the control
  characters. Text beyond ASCII is printable here and written as it is.
\<close>

definition hex_digit :: "nat \<Rightarrow> char" where
  "hex_digit d = ''0123456789abcdef'' ! d"

definition escape :: "char \<Rightarrow> char \<Rightarrow> string" where
  "escape q c =
     (if c = CHR 0x5C then [CHR 0x5C, CHR 0x5C]
      else if c = q then [CHR 0x5C, q]
      else if c = CHR 0x0A then [CHR 0x5C, CHR ''n'']
      else if c = CHR 0x0D then [CHR 0x5C, CHR ''r'']
      else if c = CHR 0x09 then [CHR 0x5C, CHR ''t'']
      else if (of_char c :: nat) < 32 \<or> (of_char c :: nat) = 127
      then [CHR 0x5C, CHR ''x'', hex_digit ((of_char c :: nat) div 16),
            hex_digit ((of_char c :: nat) mod 16)]
      else [c])"

definition repr_str :: "string \<Rightarrow> string" where
  "repr_str s =
     (let q = (if CHR 0x27 \<in> set s \<and> CHR 0x22 \<notin> set s then CHR 0x22 else CHR 0x27)
      in [q] @ concat (map (escape q) s) @ [q])"

definition str_locator :: "locator \<Rightarrow> string" where
  "str_locator l = ''('' @ repr_str (fst l) @ '', '' @ repr_str (snd l) @ '')''"

text \<open>One round of the \<open>try\<close> in the loop: wait, scroll into view, click.\<close>

definition popup_attempt :: "locator \<Rightarrow> browser \<Rightarrow> unit outcome" where
  "popup_attempt l b =
     (case wait_clickable l POPUP_WAIT b of
        (Inl e, b1) \<Rightarrow> (Inl e, b1)
      | (Inr candidate, b1) \<Rightarrow>
          (case scroll_into_view l b1 of
             (Inl e, b2) \<Rightarrow> (Inl e, b2)
           | (Inr _, b2) \<Rightarrow> click l candidate b2))"

fun popup_pass :: "locator list \<Rightarrow> browser \<Rightarrow> bool outcome" where
  "popup_pass [] b = (Inr False, b)"
| "popup_pass (l # ls) b =
     (case popup_attempt l b of
        (Inr _, b1) \<Rightarrow>
          (Inr True, emit (Logged INFO (''Closed ad popup using locator '' @ str_locator l)) b1)
      | (Inl e, b1) \<Rightarrow>
          (if e = TimeoutException then popup_pass ls b1
           else if webdriver_error e then
             popup_pass ls
               (emit (Logged DEBUG (''Attempt to close popup with locator '' @ str_locator l @
                                    '' failed: '' @ str_exn e)) b1)
           else (Inl e, b1)))"

text \<open>The loop over the buttons of the broad search; an exception leaves it.\<close>

fun fallback_buttons :: "element list \<Rightarrow> browser \<Rightarrow> bool outcome" where
  "fallback_buttons [] b = (Inr False, b)"
| "fallback_buttons (button # buttons) b =
     (case is_displayed fallback_locator button b of
        (Inl e, b1) \<Rightarrow> (Inl e, b1)
      | (Inr shown, b1) \<Rightarrow>
          (if shown then
             (case is_enabled fallback_locator button b1 of
                (Inl e, b2) \<Rightarrow> (Inl e, b2)
              | (Inr active, b2) \<Rightarrow>
                  (if active then
                     (case click fallback_locator button b2 of
                        (Inl e, b3) \<Rightarrow> (Inl e, b3)
                      | (Inr _, b3) \<Rightarrow>
                          (Inr True,
                           emit (Logged INFO ''Closed ad popup via fallback close button search'')
                             b3))
                   else fallback_buttons buttons b2))
           else fallback_buttons buttons b1))"

definition fallback_search :: "browser \<Rightarrow> bool outcome" where
  "fallback_search b =
     (case (case find_elements fallback_locator b of
              (Inl e, b1) \<Rightarrow> (Inl e, b1)
            | (Inr buttons, b1) \<Rightarrow> fallback_buttons buttons b1) of
        (Inl e, b2) \<Rightarrow>
          (if webdriver_error e
           then (Inr False,
                 emit (Logged DEBUG (''Fallback popup close search failed: '' @ str_exn e)) b2)
           else (Inl e, b2))
      | (Inr closed, b2) \<Rightarrow> (Inr closed, b2))"

definition close_popup_with :: "locator list \<Rightarrow> browser \<Rightarrow> bool outcome" where
  "close_popup_with locators b =
     (case popup_pass locators b of
        (Inl e, b1) \<Rightarrow> (Inl e, b1)
      | (Inr closed, b1) \<Rightarrow> (if closed then (Inr True, b1) else fallback_search b1))"

definition close_ad_popup_if_present :: "browser \<Rightarrow> bool outcome" where
  "close_ad_popup_if_present = close_popup_with popup_locators"

section \<open>Waiting for ad resources\<close>

subsection \<open>\<open>wait_for_ads\<close> (monetag\_ad\_tester.py)\<close>

definition AD_IDENTIFIERS :: "locator list" where
  "AD_IDENTIFIERS =
     [(CSS_SELECTOR, ''iframe[src*='' @ [CHR 0x27] @ ''monetag'' @ [CHR 0x27] @ '']''),
      (CSS_SELECTOR, ''script[src*='' @ [CHR 0x27] @ ''monetag'' @ [CHR 0x27] @ '']'')]"

definition WAIT_TIMEOUT :: nat where
  "WAIT_TIMEOUT = 12000"

text \<open>
  The loop over the locators, all waited for with the one \<open>WebDriverWait\<close> of the call.
  Only \<open>TimeoutException\<close> is caught.
\<close>

fun wait_for_any :: "locator list \<Rightarrow> nat \<Rightarrow> browser \<Rightarrow> bool outcome" where
  "wait_for_any [] timeout b = (Inr False, b)"
| "wait_for_any (l # ls) timeout b =
     (case wait_present l timeout b of
        (Inr _, b1) \<Rightarrow> (Inr True, b1)
      | (Inl e, b1) \<Rightarrow>
          (if e = TimeoutException then wait_for_any ls timeout b1 else (Inl e, b1)))"

definition wait_for_ads :: "nat \<Rightarrow> browser \<Rightarrow> bool outcome" where
  "wait_for_ads timeout = wait_for_any AD_IDENTIFIERS timeout"

section \<open>Ad signal detection\<close>

text \<open>Python's truth value of an \<open>Optional[str]\<close>: \<open>None\<close> and the empty string are false.\<close>

fun truthy :: "string option \<Rightarrow> bool" where
  "truthy None = False"
| "truthy (Some s) = (s \<noteq> [])"

text \<open>\<open>x or ""\<close> for an \<open>Optional[str]\<close>.\<close>

fun text_or_empty :: "string option \<Rightarrow> string" where
  "text_or_empty None = []"
| "text_or_empty (Some s) = s"

subsection \<open>\<open>inspect_for_ad_elements\<close> (edge\_ad\_render\_tester.py)\<close>




text \<open>\<open>keyword in descriptor\<close>: the keyword is a contiguous part of the descriptor.\<close>

fun contains :: "string \<Rightarrow> string \<Rightarrow> bool" where
  "contains k [] = (k = [])"
| "contains k (c # cs) = (if prefix k (c # cs) then True else contains k cs)"






definition detected :: "string \<times> string \<Rightarrow> event" where
  "detected m = Logged INFO (''Detected '' @ fst m @ '' with ad signature: '' @ snd m)"


section \<open>Results and exit status\<close>

text \<open>\<open>str\<close> of a truth value and of a natural number.\<close>

definition str_bool :: "bool \<Rightarrow> string" where
  "str_bool x = (if x then ''True'' else ''False'')"

definition digit :: "nat \<Rightarrow> char" where
  "digit d = ''0123456789'' ! d"

function str_nat :: "nat \<Rightarrow> string" where
  "str_nat n = (if n < 10 then [digit n] else str_nat (n div 10) @ [digit (n mod 10)])"
  by pat_completeness auto
termination
  by (relation "measure id") auto

text \<open>
  The three result dataclasses share the fields \<open>ads_detected\<close> and \<open>error\<close>, and the
  two click testers share three more; they are modelled as one record and its extensions.
  \<open>number\<close>, \<open>iteration\<close> and \<open>attempt\<close> are the sequence numbers.
\<close>

record cycle_result =
  ads_detected :: bool
  error :: "string option"

record view_result = cycle_result +
  number :: nat

record interaction_result = cycle_result +
  href :: string
  popup_urls :: "string list"
  debug_notes :: "string option"

record click_result = interaction_result +
  iteration :: nat
  clicked_label :: string
  both_buttons_visible :: bool

record play_attempt_result = interaction_result +
  attempt :: nat
  buttons_visible :: bool

text \<open>
  Each \<open>main\<close>, as a function of what its test run returned or raised:
  \<open>perform_test_cycle()\<close> in monetag\_ad\_tester.py, \<open>exercise_navigation()\<close> in
  monetag\_nav\_click\_tester.py and \<open>exercise_games_button()\<close> in
  monetag\_play\_button\_tester.py. The result is the exit status with the lines that
  \<open>main\<close> printed. An exception that is not a \<open>WebDriverException\<close> leaves \<open>main\<close>.
\<close>

definition newline :: char where
  "newline = CHR 0x0A"

definition rightwards_arrow :: string where
  "rightwards_arrow = [CHR 0xE2, CHR 0x86, CHR 0x92]"

definition initialise_failed :: "exn \<Rightarrow> (exn + int) \<times> string list" where
  "initialise_failed e =
     (if webdriver_error e
      then (Inr 1, [''Failed to initialise Edge WebDriver: '' @ str_exn e])
      else (Inl e, []))"

definition main_ad_tester :: "exn + view_result list \<Rightarrow> (exn + int) \<times> string list" where
  "main_ad_tester run =
     (case run of
        Inl e \<Rightarrow> initialise_failed e
      | Inr results \<Rightarrow>
          (let failures = filter (\<lambda>r. truthy (error r) \<or> \<not> ads_detected r) results
           in if failures = []
              then (Inr 0, [newline # ''All views detected Monetag ad activity.''])
              else (Inr 2, [newline # ''Completed with '' @ str_nat (length failures) @
                                      '' issue(s) detected.''])))"

definition main_nav_click_tester :: "exn + click_result list \<Rightarrow> (exn + int) \<times> string list" where
  "main_nav_click_tester run =
     (case run of
        Inl e \<Rightarrow> initialise_failed e
      | Inr results \<Rightarrow>
          (let issues = filter (\<lambda>r. truthy (error r)) results
           in if issues = []
              then (let detected = filter ads_detected results
                    in (Inr 0, [newline # str_nat (length detected) @ '' of '' @
                                str_nat (length results) @
                                '' interactions surfaced Monetag ad activity.'']))
              else (Inr 0, [newline # ''Completed with '' @ str_nat (length issues) @
                                      '' error(s).''])))"

definition main_play_button_tester ::
  "exn + play_attempt_result list \<Rightarrow> (exn + int) \<times> string list" where
  "main_play_button_tester run =
     (case run of
        Inl e \<Rightarrow> initialise_failed e
      | Inr results \<Rightarrow>
          (let ads = filter ads_detected results;
               errors = filter (\<lambda>r. truthy (error r)) results
           in (Inr 0, [newline # ''Completed '' @ str_nat (length results) @ '' attempts '' @
                       rightwards_arrow @ '' '' @ str_nat (length ads) @
                       '' with ad activity, '' @ str_nat (length errors) @ '' errors.''])))"

section \<open>The click testers\<close>

text \<open>Sequencing: the next step runs on the value and the session of a step that returned.\<close>

definition then_do :: "'a outcome \<Rightarrow> ('a \<Rightarrow> browser \<Rightarrow> 'c outcome) \<Rightarrow> 'c outcome" where
  "then_do r f = (case r of (Inl e, b) \<Rightarrow> (Inl e, b) | (Inr x, b) \<Rightarrow> f x b)"

text \<open>\<open>except TimeoutException: return False\<close> around a step that returns a truth value.\<close>

definition timeout_is_false :: "bool outcome \<Rightarrow> bool outcome" where
  "timeout_is_false r =
     (case r of
        (Inl e, b) \<Rightarrow> (if e = TimeoutException then (Inr False, b) else (Inl e, b))
      | (Inr x, b) \<Rightarrow> (Inr x, b))"

definition HOME_URL :: string where
  "HOME_URL = ''https://logovobezdelnikov.com/''"

text \<open>
  The popups of one click, as both click testers handle them. The lists \<open>popup_urls\<close>
  and the notes, and the flag \<open>ads_detected\<close>, are carried along; what was appended
  before an exception stays appended. \<open>visit_popup\<close> is the \<open>try\<close> body, with the
  exception that ended it if one did.
\<close>

type_synonym popup_notes = "string list \<times> bool \<times> string list"

definition visit_popup ::
  "nat \<Rightarrow> string \<Rightarrow> string \<Rightarrow> string \<Rightarrow> handle \<Rightarrow> popup_notes \<Rightarrow> browser \<Rightarrow>
   (popup_notes \<times> exn option) \<times> browser" where
  "visit_popup settle label seen found_note h acc b =
     (case acc of (urls, ads, notes) \<Rightarrow>
      (case switch_to_window h b of
         (Inl e, b1) \<Rightarrow> ((acc, Some e), b1)
       | (Inr _, b1) \<Rightarrow>
           (case current_url b1 of
              (Inl e, b2) \<Rightarrow> ((acc, Some e), b2)
            | (Inr u, b2) \<Rightarrow>
                (case current_url (sleep settle (emit (Printed label (seen @ u)) b2)) of
                   (Inl e, b3) \<Rightarrow> ((acc, Some e), b3)
                 | (Inr u1, b3) \<Rightarrow>
                     (case wait_for_ads 3000 b3 of
                        (Inl e, b4) \<Rightarrow> (((urls @ [u1], ads, notes), Some e), b4)
                      | (Inr found, b4) \<Rightarrow>
                          (if found
                           then (((urls @ [u1], True, notes @ [found_note]), None), b4)
                           else (((urls @ [u1], ads, notes), None), b4)))))))"

text \<open>
  One round of the loop: the \<open>try\<close> body, the \<open>except\<close> clause for Selenium's
  exceptions, and \<open>driver.close()\<close> under \<open>suppress\<close> in the \<open>finally\<close> clause.
\<close>

definition inspect_popup ::
  "nat \<Rightarrow> string \<Rightarrow> string \<Rightarrow> string \<Rightarrow> string \<Rightarrow> handle \<Rightarrow> popup_notes \<Rightarrow> browser \<Rightarrow>
   popup_notes outcome" where
  "inspect_popup settle label seen found_note error_note h acc b =
     (case visit_popup settle label seen found_note h acc b of
        ((acc1, None), b1) \<Rightarrow> then_do (suppress close b1) (\<lambda>_ b2. (Inr acc1, b2))
      | (((urls, ads, notes), Some e), b1) \<Rightarrow>
          (if webdriver_error e
           then then_do (suppress close b1)
                  (\<lambda>_ b2. (Inr (urls, ads, notes @ [error_note @ str_exn e]), b2))
           else then_do (suppress close b1) (\<lambda>_ b2. (Inl e, b2))))"

fun inspect_popups ::
  "nat \<Rightarrow> string \<Rightarrow> string \<Rightarrow> string \<Rightarrow> string \<Rightarrow> handle list \<Rightarrow> popup_notes \<Rightarrow> browser \<Rightarrow>
   popup_notes outcome" where
  "inspect_popups settle label seen found_note error_note [] acc b = (Inr acc, b)"
| "inspect_popups settle label seen found_note error_note (h # hs) acc b =
     then_do (inspect_popup settle label seen found_note error_note h acc b)
       (inspect_popups settle label seen found_note error_note hs)"

subsection \<open>monetag\_nav\_click\_tester.py\<close>

definition TOGGLE_ITERATIONS :: nat where "TOGGLE_ITERATIONS = 16"
definition NAV_POST_CLICK_WAIT :: nat where "NAV_POST_CLICK_WAIT = 2500"
definition NAV_POPUP_SETTLE_WAIT :: nat where "NAV_POPUP_SETTLE_WAIT = 3000"

definition HOME_BUTTON :: locator where
  "HOME_BUTTON = (XPATH, ''//*[@id='' @ [CHR 0x27] @ ''root'' @ [CHR 0x27] @ '']/div/div/div/nav/a[1]'')"

definition GAMES_BUTTON :: locator where
  "GAMES_BUTTON = (XPATH, ''//*[@id='' @ [CHR 0x27] @ ''root'' @ [CHR 0x27] @ '']/div/div/div/nav/a[2]'')"

definition NAV_BUTTONS :: "(string \<times> locator) list" where
  "NAV_BUTTONS = [(''Home'', HOME_BUTTON), (''Games'', GAMES_BUTTON)]"

definition are_both_buttons_visible :: "nat \<Rightarrow> browser \<Rightarrow> bool outcome" where
  "are_both_buttons_visible timeout b =
     timeout_is_false
       (then_do (wait_visible HOME_BUTTON timeout b) (\<lambda>home b1.
        then_do (wait_visible GAMES_BUTTON timeout b1) (\<lambda>games b2.
        then_do (is_displayed HOME_BUTTON home b2) (\<lambda>home_shown b3.
          if home_shown then is_displayed GAMES_BUTTON games b3 else (Inr False, b3)))))"

definition prepare_main_view :: "string \<Rightarrow> browser \<Rightarrow> unit outcome" where
  "prepare_main_view label b =
     then_do (close_additional_windows b) (\<lambda>_. dismiss_initial_overlay label)"

text \<open>
  The \<open>try\<close> body of one iteration, in the order of the source. First the click and
  what is read before and after it: the \<open>href\<close>, the two snapshots of the handles and
  the first visibility check.
\<close>

definition click_nav_button ::
  "string \<Rightarrow> string \<times> locator \<Rightarrow> browser \<Rightarrow> (string \<times> bool \<times> handle list) outcome" where
  "click_nav_button label target b =
     (case target of (target_label, target_locator) \<Rightarrow>
      then_do (wait_clickable target_locator 5000
                 (emit (Printed (''['' @ label @ '']'')
                    (''Clicking '' @ [CHR 0x27] @ target_label @ [CHR 0x27] @ ''.'')) b))
        (\<lambda>button b1.
      then_do (get_attribute target_locator button ''href'' b1) (\<lambda>link b2.
      then_do (window_handles b2) (\<lambda>before_handles b3.
      then_do (click target_locator button b3) (\<lambda>_ b4.
      then_do (are_both_buttons_visible 2500 (sleep NAV_POST_CLICK_WAIT b4))
        (\<lambda>both_visible b5.
      then_do (window_handles
                 (emit (Printed (''['' @ label @ '']'')
                    (''Both buttons visible after click: '' @ str_bool both_visible @
                     ''.'')) b5))
        (\<lambda>after_handles b6.
           (Inr (text_or_empty link, both_visible,
                 set_difference after_handles before_handles), b6))))))))"

text \<open>
  After the popups: back to the main window; when there were popups, the home page is
  loaded again, the view is prepared and the buttons are looked for a second time.
\<close>

definition return_to_main ::
  "string \<Rightarrow> handle \<Rightarrow> handle list \<Rightarrow> bool \<Rightarrow> string list \<Rightarrow> browser \<Rightarrow>
   (bool \<times> string list) outcome" where
  "return_to_main label main_handle new_handles both_visible notes b =
     then_do (suppress (switch_to_window main_handle) b) (\<lambda>_ b1.
       if new_handles = [] then (Inr (both_visible, notes), b1)
       else
         then_do (get HOME_URL b1) (\<lambda>_ b2.
         then_do (prepare_main_view label (sleep 1200 b2)) (\<lambda>_ b3.
         then_do (are_both_buttons_visible 4000 b3) (\<lambda>visible b4.
           (Inr (visible,
                 notes @ [''returned to main handle after popup(s)'',
                          ''buttons visible after reload: '' @ str_bool visible]), b4)))))"

text \<open>When the buttons are missing, the overlay is dismissed once more and they are looked for again.\<close>

definition retry_overlay ::
  "string \<Rightarrow> bool \<Rightarrow> string list \<Rightarrow> browser \<Rightarrow> (bool \<times> string list) outcome" where
  "retry_overlay label both_visible notes b =
     (if both_visible then (Inr (both_visible, notes), b)
      else
        then_do (dismiss_initial_overlay label b) (\<lambda>_ b1.
        then_do (are_both_buttons_visible 3000 b1) (\<lambda>visible b2.
          (Inr (visible,
                notes @ [''buttons missing, retrying overlay dismissal'',
                         ''buttons visible after overlay retry: '' @ str_bool visible]), b2))))"

text \<open>\<open>"; ".join(debug_notes) if debug_notes else None\<close>\<close>

fun join_notes :: "string list \<Rightarrow> string" where
  "join_notes [] = []"
| "join_notes [n] = n"
| "join_notes (n # ns) = n @ ''; '' @ join_notes ns"

definition notes_or_none :: "string list \<Rightarrow> string option" where
  "notes_or_none notes = (if notes = [] then None else Some (join_notes notes))"

text \<open>
  The end of the \<open>try\<close> body, from \<open>ads_detected = ads_detected or not both_buttons_visible\<close>
  to the record that is appended to the results.
\<close>

definition conclude_click ::
  "nat \<Rightarrow> string \<Rightarrow> string \<Rightarrow> string \<Rightarrow> string list \<Rightarrow> bool \<Rightarrow> bool \<Rightarrow> string list \<Rightarrow>
   browser \<Rightarrow> click_result outcome" where
  "conclude_click n label target_label link urls ads both_visible notes b =
     (let forced = (if ads then True else if both_visible then False else True) in
      then_do (if forced then (Inr (True, notes), b)
               else then_do (wait_for_ads 2000 b) (\<lambda>found b1.
                      if found
                      then (Inr (True, notes @ [''Monetag elements detected on main page'']), b1)
                      else (Inr (False, notes), b1)))
        (\<lambda>(detected_ads, notes1) b2.
           (Inr \<lparr>ads_detected = detected_ads, error = None, href = link, popup_urls = urls,
                  debug_notes = notes_or_none notes1, iteration = n,
                  clicked_label = target_label, both_buttons_visible = both_visible\<rparr>,
            emit (Printed (if detected_ads then ''[+]'' else ''[-]'')
                    (label @ (if detected_ads
                       then '': ad activity observed (clicked='' @ [CHR 0x27] @ target_label @
                            [CHR 0x27] @ '', popups='' @ str_nat (length urls) @ '')''
                       else '': no ad activity (clicked='' @ [CHR 0x27] @ target_label @
                            [CHR 0x27] @ '')''))) b2)))"

definition navigation_cycle ::
  "nat \<Rightarrow> string \<times> locator \<Rightarrow> handle \<Rightarrow> browser \<Rightarrow> click_result outcome" where
  "navigation_cycle n target main_handle b =
     (let label = ''iteration '' @ str_nat n in
      then_do (click_nav_button label target b) (\<lambda>(link, both0, new_handles) b1.
      then_do (inspect_popups NAV_POPUP_SETTLE_WAIT (''['' @ label @ '']'')
                 ''Popup window detected: '' ''popup contained Monetag elements''
                 ''popup handling error: '' new_handles
                 ([], False,
                  if new_handles = [] then []
                  else [''new handles: '' @ str_nat (length new_handles)]) b1)
        (\<lambda>(urls, ads, notes) b2.
      then_do (return_to_main label main_handle new_handles both0 notes b2)
        (\<lambda>(both1, notes1) b3.
      then_do (retry_overlay label both1 notes1 b3) (\<lambda>(both2, notes2) b4.
        conclude_click n label (fst target) link urls ads both2 notes2 b4)))))"

text \<open>
  One iteration with its \<open>except Exception\<close> clause: the record of a failed cycle, then
  the recovery, whose own exceptions leave \<open>exercise_navigation\<close>.
\<close>

definition failed_cycle :: "nat \<Rightarrow> exn \<Rightarrow> click_result" where
  "failed_cycle n e =
     \<lparr>ads_detected = False, error = Some (str_exn e), href = [], popup_urls = [],
      debug_notes = None, iteration = n, clicked_label = ''<unknown>'',
      both_buttons_visible = False\<rparr>"

definition recover :: "string \<Rightarrow> handle \<Rightarrow> browser \<Rightarrow> unit outcome" where
  "recover label main_handle b =
     then_do (suppress (switch_to_window main_handle) b) (\<lambda>_ b1.
     then_do (get HOME_URL b1) (\<lambda>_ b2.
       prepare_main_view (label @ '' recovery'') (sleep 1500 b2)))"

definition exercise_step ::
  "nat \<Rightarrow> nat \<Rightarrow> handle \<Rightarrow> browser \<Rightarrow> click_result outcome" where
  "exercise_step n button_index main_handle b =
     (case navigation_cycle n (NAV_BUTTONS ! button_index) main_handle b of
        (Inr r, b1) \<Rightarrow> (Inr r, b1)
      | (Inl e, b1) \<Rightarrow>
          then_do (recover (''iteration '' @ str_nat n) main_handle
                     (emit (Printed ''[!]'' (''iteration '' @ str_nat n @ '': error -> '' @
                                              str_exn e)) b1))
            (\<lambda>_ b2. (Inr (failed_cycle n e), b2)))"

text \<open>
  The \<open>for\<close> loop over \<open>range(1, iterations + 1)\<close>; \<open>button_index\<close> stays below
  \<open>len(NAV_BUTTONS)\<close>.
\<close>

fun exercise_loop ::
  "nat list \<Rightarrow> nat \<Rightarrow> handle \<Rightarrow> click_result list \<Rightarrow> browser \<Rightarrow> click_result list outcome" where
  "exercise_loop [] button_index main_handle results b = (Inr results, b)"
| "exercise_loop (n # ns) button_index main_handle results b =
     then_do (exercise_step n (button_index mod length NAV_BUTTONS) main_handle b)
       (\<lambda>r. exercise_loop ns ((button_index + 1) mod length NAV_BUTTONS) main_handle
               (results @ [r]))"

text \<open>\<open>exercise_navigation\<close>, on the session that \<open>managed_driver\<close> opened.\<close>

definition exercise_navigation :: "nat \<Rightarrow> browser \<Rightarrow> click_result list outcome" where
  "exercise_navigation iterations b =
     then_do (get HOME_URL b) (\<lambda>_ b1.
     then_do (current_window_handle (sleep 1500 b1)) (\<lambda>main_handle b2.
     then_do (prepare_main_view ''initial load'' b2) (\<lambda>_.
       exercise_loop [1..<iterations + 1] 0 main_handle [])))"

subsection \<open>monetag\_play\_button\_tester.py\<close>

definition INITIAL_WAIT :: nat where "INITIAL_WAIT = 5000"
definition RETRY_WAIT :: nat where "RETRY_WAIT = 7000"
definition PLAY_POST_CLICK_WAIT :: nat where "PLAY_POST_CLICK_WAIT = 3500"
definition PLAY_POPUP_SETTLE_WAIT :: nat where "PLAY_POPUP_SETTLE_WAIT = 3500"
definition ATTEMPTS :: nat where "ATTEMPTS = 12"

definition HOME_LOCATORS :: "locator list" where
  "HOME_LOCATORS =
     [HOME_BUTTON,
      (XPATH, ''/html/body/div/div/div/div/nav/a[1]''),
      (CSS_SELECTOR, ''nav[aria-label='' @ [CHR 0x27] @ ''Main navigation'' @ [CHR 0x27] @
                     ''] a[href='' @ [CHR 0x27] @ ''/'' @ [CHR 0x27] @ '']'')]"

definition GAMES_LOCATORS :: "locator list" where
  "GAMES_LOCATORS =
     [GAMES_BUTTON,
      (XPATH, ''/html/body/div/div/div/div/nav/a[2]''),
      (CSS_SELECTOR, ''nav[aria-label='' @ [CHR 0x27] @ ''Main navigation'' @ [CHR 0x27] @
                     ''] a[href='' @ [CHR 0x27] @ ''/game'' @ [CHR 0x27] @ '']''),
      (LINK_TEXT, ''Games'')]"

text \<open>
  \<open>find_first_visible\<close>: the first locator whose element is present within 1.5 s and
  displayed; a timeout and any other Selenium exception move on to the next locator. The
  element is returned with the locator that found it.
\<close>

definition present_and_shown :: "locator \<Rightarrow> browser \<Rightarrow> (element \<times> bool) outcome" where
  "present_and_shown l b =
     then_do (wait_present l 1500 b) (\<lambda>e b1.
     then_do (is_displayed l e b1) (\<lambda>shown b2. (Inr (e, shown), b2)))"

fun find_first_visible :: "locator list \<Rightarrow> browser \<Rightarrow> (locator \<times> element) option outcome" where
  "find_first_visible [] b = (Inr None, b)"
| "find_first_visible (l # ls) b =
     (case present_and_shown l b of
        (Inl x, b1) \<Rightarrow> (if webdriver_error x then find_first_visible ls b1 else (Inl x, b1))
      | (Inr (e, shown), b1) \<Rightarrow>
          (if shown then (Inr (Some (l, e)), b1) else find_first_visible ls b1))"

text \<open>
  \<open>are_nav_buttons_visible\<close>: \<open>time.time()\<close> is the clock of the session. Each round
  that does not find both buttons sleeps 0.2 s, and no command turns the clock back, so
  the loop ends.
\<close>

function poll_nav_buttons :: "nat \<Rightarrow> browser \<Rightarrow> bool outcome" where
  "poll_nav_buttons deadline b =
     (if clock b < deadline then
        (case find_first_visible HOME_LOCATORS b of
           (Inl e, b1) \<Rightarrow> (Inl e, b1)
         | (Inr home, b1) \<Rightarrow>
             (case find_first_visible GAMES_LOCATORS b1 of
                (Inl e, b2) \<Rightarrow> (Inl e, b2)
              | (Inr games, b2) \<Rightarrow>
                  (if home \<noteq> None \<and> games \<noteq> None then (Inr True, b2)
                   else poll_nav_buttons deadline (sleep 200 b2))))
      else (Inr False, b))"
  by pat_completeness auto
termination
  apply (relation "measure (\<lambda>(deadline, b). deadline - clock b)")
   apply simp
  subgoal premises p for deadline b x b1 home xa b2 games
  proof -
    have step: "clock s \<le> clock (snd (present_and_shown l s))" for l s
      by (simp add: present_and_shown_def then_do_def wait_present_def wait_until_def
          is_displayed_def command_def emit_def sleep_def Let_def
          split: list.split)
    have mono: "clock s \<le> clock (snd (find_first_visible ls s))" for ls s
    proof (induction ls arbitrary: s)
      case Nil
      show ?case by simp
    next
      case (Cons l ls)
      obtain r s1 where q: "present_and_shown l s = (r, s1)"
        by (cases "present_and_shown l s")
      have a: "clock s \<le> clock s1"
        using step [of s l] q by simp
      have c: "clock s1 \<le> clock (snd (find_first_visible ls s1))"
        by (rule Cons.IH)
      show ?case
        using a c q by (auto split: sum.split prod.split)
    qed
    have "snd (find_first_visible HOME_LOCATORS b) = b1"
      using p by (metis snd_conv)
    then have m1: "clock b \<le> clock b1"
      using mono [of b HOME_LOCATORS] by simp
    have "snd (find_first_visible GAMES_LOCATORS b1) = b2"
      using p by (metis snd_conv)
    then have m2: "clock b1 \<le> clock b2"
      using mono [of b1 GAMES_LOCATORS] by simp
    have "clock b < deadline"
      using p by simp
    then show ?thesis
      using m1 m2 by (simp add: sleep_def)
  qed
  done

definition are_nav_buttons_visible :: "nat \<Rightarrow> browser \<Rightarrow> bool outcome" where
  "are_nav_buttons_visible timeout b = poll_nav_buttons (clock b + timeout) b"

text \<open>
  \<open>WebDriverWait(driver, 2.5).until(lambda d: button.is_enabled())\<close>, on the element
  that was found.
\<close>

definition wait_enabled :: "locator \<Rightarrow> element \<Rightarrow> nat \<Rightarrow> browser \<Rightarrow> unit outcome" where
  "wait_enabled l e t = command (WaitEnabled l t) True
     (\<lambda>b. if enabled e then (Inr (), b) else (Inl TimeoutException, sleep t b))"

text \<open>
  The record that \<open>click_games_button\<close> returns from its \<open>except TimeoutException\<close>
  clause, with the text of the exception.
\<close>

definition not_clickable :: "nat \<Rightarrow> string \<Rightarrow> play_attempt_result" where
  "not_clickable n message =
     \<lparr>ads_detected = False, error = Some (''Games button not clickable: '' @ message),
      href = [], popup_urls = [], debug_notes = None, attempt = n, buttons_visible = False\<rparr>"

text \<open>
  The first \<open>try\<close>: the button with the locator that found it, or the record of the early
  return. Only \<open>TimeoutException\<close> is caught.
\<close>

definition locate_games_button ::
  "nat \<Rightarrow> browser \<Rightarrow> (play_attempt_result + locator \<times> element) outcome" where
  "locate_games_button n b =
     then_do (find_first_visible GAMES_LOCATORS b) (\<lambda>found b1.
       case found of
         None \<Rightarrow>
           (Inr (Inl (not_clickable n
              (''Message: Games button not visible via known locators.'' @ [newline]))), b1)
       | Some (l, button) \<Rightarrow>
           (case wait_enabled l button 2500 b1 of
              (Inl e, b2) \<Rightarrow>
                (if e = TimeoutException then (Inr (Inl (not_clickable n (str_exn e))), b2)
                 else (Inl e, b2))
            | (Inr _, b2) \<Rightarrow> (Inr (Inr (l, button)), b2)))"

text \<open>The click, and the click by script when the native one raised.\<close>

definition press_games_button ::
  "locator \<Rightarrow> element \<Rightarrow> string list \<Rightarrow> browser \<Rightarrow> string list outcome" where
  "press_games_button l button notes b =
     (case click l button b of
        (Inr _, b1) \<Rightarrow> (Inr notes, b1)
      | (Inl e, b1) \<Rightarrow>
          (if webdriver_error e
           then then_do (script_click l b1) (\<lambda>_ b2.
                  (Inr (notes @ [''native click failed: '' @ str_exn e @ ''; using JS click'']),
                   b2))
           else (Inl e, b1)))"

text \<open>
  The end of \<open>click_games_button\<close>, from \<open>if not ads_detected and wait_for_ads(...)\<close> to the
  record that is returned.
\<close>

definition conclude_attempt ::
  "nat \<Rightarrow> string \<Rightarrow> string list \<Rightarrow> bool \<Rightarrow> handle list \<Rightarrow> bool \<Rightarrow> string list \<Rightarrow>
   browser \<Rightarrow> play_attempt_result outcome" where
  "conclude_attempt n link urls ads new_handles both_visible notes b =
     then_do (if ads then (Inr (True, notes), b)
              else then_do (wait_for_ads 2000 b) (\<lambda>found b1.
                     if found
                     then (Inr (True, notes @ [''Monetag elements detected on main page'']), b1)
                     else (Inr (False, notes), b1)))
       (\<lambda>(detected_ads, notes1) b2.
          (Inr \<lparr>ads_detected =
                   (if detected_ads then True
                    else if new_handles \<noteq> [] then True
                    else if both_visible then False else True),
                 error = None, href = link, popup_urls = urls,
                 debug_notes = notes_or_none notes1, attempt = n,
                 buttons_visible = both_visible\<rparr>, b2))"

definition click_games_button :: "nat \<Rightarrow> handle \<Rightarrow> browser \<Rightarrow> play_attempt_result outcome" where
  "click_games_button n main_handle b =
     (let label = ''attempt '' @ str_nat n in
      then_do (locate_games_button n b) (\<lambda>located b1.
        case located of
          Inl early \<Rightarrow> (Inr early, b1)
        | Inr (l, button) \<Rightarrow>
            then_do (get_attribute l button ''href'' b1) (\<lambda>link b2.
            then_do (suppress (\<lambda>s. then_do (scroll_into_view l s)
                                      (\<lambda>_ s1. (Inr (), sleep 200 s1))) b2) (\<lambda>_ b3.
            then_do (window_handles b3) (\<lambda>before_handles b4.
            then_do (press_games_button l button []
                       (emit (Printed (''['' @ label @ '']'')
                          (''Clicking Games button -> '' @
                           (if text_or_empty link = [] then ''<no href>''
                            else text_or_empty link))) b4))
              (\<lambda>notes b5.
            then_do (dismiss_initial_overlay (label @ '' post-click'')
                       (sleep PLAY_POST_CLICK_WAIT b5)) (\<lambda>_ b6.
            then_do (are_nav_buttons_visible 3000 b6) (\<lambda>both_visible b7.
            then_do (window_handles
                       (emit (Printed (''['' @ label @ '']'')
                          (''Both buttons visible after click: '' @ str_bool both_visible))
                          b7))
              (\<lambda>after_handles b8.
            (let new_handles = set_difference after_handles before_handles in
             then_do (inspect_popups PLAY_POPUP_SETTLE_WAIT (''['' @ label @ '']'')
                        ''Popup opened: '' ''Monetag elements detected in popup''
                        ''popup error: '' new_handles
                        ([], False,
                         notes @ (if new_handles = [] then []
                                  else [''popup handles: '' @ str_nat (length new_handles)]))
                        b8)
               (\<lambda>(urls, ads, notes1) b9.
             then_do (suppress (switch_to_window main_handle) b9) (\<lambda>_ b10.
               conclude_attempt n (text_or_empty link) urls ads new_handles both_visible
                 (notes1 @
                  (if new_handles = [] then []
                   else [''returned to main window after closing popup(s)'']) @
                  (if both_visible then [] else [''nav buttons missing; likely overlay/ad'']))
                 b10))))))))))))"

section \<open>Vocabulary of the properties\<close>

text \<open>What a wait for a clickable element sees on the focused page.\<close>

definition clickable :: "browser \<Rightarrow> locator \<Rightarrow> bool" where
  "clickable b l = (case dom (here b) l of [] \<Rightarrow> False | e # _ \<Rightarrow> displayed e \<and> enabled e)"

definition obscured :: "browser \<Rightarrow> locator \<Rightarrow> bool" where
  "obscured b l = (case dom (here b) l of [] \<Rightarrow> False | e # _ \<Rightarrow> intercepted e)"

text \<open>The trace of one locator that timed out in \<open>dismiss_initial_overlay\<close>.\<close>

definition timed_out :: "string \<Rightarrow> locator \<Rightarrow> event list" where
  "timed_out label l =
     [Sent (WaitClickable l OVERLAY_WAIT),
      Printed label (''Locator timed out: '' @ show_locator l)]"


text \<open>Two states of a session that differ in trace and clock at most.\<close>

definition same_windows :: "browser \<Rightarrow> browser \<Rightarrow> bool" where
  "same_windows b b' =
     (handles b' = handles b \<and> focus b' = focus b \<and> pages b' = pages b \<and>
      pending b' = pending b \<and> fault b' = fault b)"

text \<open>What a presence wait sees on the focused page.\<close>

definition present :: "browser \<Rightarrow> locator \<Rightarrow> bool" where
  "present b l = (dom (here b) l \<noteq> [])"

text \<open>The locators a sequence of waits goes through: those absent, up to the first present.\<close>

definition consulted :: "browser \<Rightarrow> locator list \<Rightarrow> locator list" where
  "consulted b ls =
     takeWhile (\<lambda>l. \<not> present b l) ls @ take 1 (dropWhile (\<lambda>l. \<not> present b l) ls)"












text \<open>
  What an immediate find and click sees on the focused page: the click goes through when
  the element is there, displayed and not covered. The retry goes through the locators up
  to the first one whose click goes through.
\<close>

definition pressable :: "browser \<Rightarrow> locator \<Rightarrow> bool" where
  "pressable b l =
     (case dom (here b) l of [] \<Rightarrow> False | e # _ \<Rightarrow> displayed e \<and> \<not> intercepted e)"


section \<open>Example sessions\<close>

definition no_fault :: "browser \<Rightarrow> bool" where
  "no_fault b = (\<forall>h c. \<not> fault b h c)"

definition blank_page :: page where
  "blank_page = \<lparr>url = ''https://sweetmuse.shop/'', title = [], dom = (\<lambda>l. [])\<rparr>"

text \<open>A main window \<open>A\<close> and two ad windows, every command answered.\<close>

definition two_popups :: browser where
  "two_popups = \<lparr>handles = [''A'', ''P1'', ''P2''], focus = ''A'',
     pages = (\<lambda>h. blank_page), pending = [], fault = (\<lambda>h c. False), trace = [], clock = 0\<rparr>"

text \<open>The same session, where switching to the ad window \<open>P1\<close> fails.\<close>

definition one_unreachable :: browser where
  "one_unreachable = two_popups\<lparr>fault := (\<lambda>h c. c = SwitchTo ''P1'')\<rparr>"

definition third_close_locator :: locator where
  "third_close_locator = (XPATH, ''/html/body/div/div/div[2]/div/button'')"

definition third_popup_locator :: locator where
  "third_popup_locator =
     (XPATH, ''//span[normalize-space()='' @ [CHR 0x27] @ zakryt @ [CHR 0x27] @ '']'')"

text \<open>A button that can be clicked, and a page where a locator finds nothing.\<close>

definition plain_button :: element where
  "plain_button = \<lparr>displayed = True, enabled = True, intercepted = False,
     attribute = (\<lambda>a. None)\<rparr>"

text \<open>
  A session with one window in which only the third close-button locator of either
  dismisser finds a clickable button.
\<close>

definition third_clickable :: browser where
  "third_clickable = \<lparr>handles = [''A''], focus = ''A'',
     pages = (\<lambda>h. \<lparr>url = ''https://logovobezdelnikov.com/'', title = [],
        dom = (\<lambda>l. if l = (XPATH, ''/html/body/div/div/div[2]/div/button'') then [plain_button]
                    else if l = (XPATH, ''//span[normalize-space()='' @ [CHR 0x27] @ zakryt @
                                        [CHR 0x27] @ '']'') then [plain_button]
                    else [])\<rparr>),
     pending = [], fault = (\<lambda>h c. False), trace = [], clock = 0\<rparr>"

text \<open>One window on a page where no locator finds anything; no click opens a window.\<close>

definition bare_window :: browser where
  "bare_window = \<lparr>handles = [''A''], focus = ''A'',
     pages = (\<lambda>h. \<lparr>url = ''https://logovobezdelnikov.com/'', title = [], dom = (\<lambda>l. [])\<rparr>),
     pending = [], fault = (\<lambda>h c. False), trace = [], clock = 0\<rparr>"

text \<open>The same session, where reading the current address fails.\<close>

definition address_unreadable :: browser where
  "address_unreadable = bare_window\<lparr>fault := (\<lambda>h c. c = CurrentUrl)\<rparr>"

text \<open>The same session, where the next click opens the ad window \<open>P\<close>.\<close>

definition popup_on_click :: browser where
  "popup_on_click = bare_window\<lparr>pending := [''P'']\<rparr>"

text \<open>One window whose page holds a Monetag script and no Monetag iframe.\<close>

definition script_locator :: locator where
  "script_locator = (CSS_SELECTOR, ''script[src*='' @ [CHR 0x27] @ ''monetag'' @ [CHR 0x27] @ '']'')"

definition script_only :: browser where
  "script_only = \<lparr>handles = [''A''], focus = ''A'',
     pages = (\<lambda>h. \<lparr>url = ''https://logovobezdelnikov.com/'', title = [],
        dom = (\<lambda>l. if l = script_locator then [plain_button] else [])\<rparr>),
     pending = [], fault = (\<lambda>h c. False), trace = [], clock = 0\<rparr>"

text \<open>A run of two cycles, the second of which recorded an error.\<close>

definition failed_click :: click_result where
  "failed_click = \<lparr>ads_detected = False, error = Some ''Message: timeout'', href = [],
     popup_urls = [], debug_notes = None, iteration = 2, clicked_label = ''<unknown>'',
     both_buttons_visible = False\<rparr>"

definition clean_click :: click_result where
  "clean_click = \<lparr>ads_detected = True, error = None, href = ''/'',
     popup_urls = [], debug_notes = None, iteration = 1, clicked_label = ''Home'',
     both_buttons_visible = True\<rparr>"

definition clean_view :: view_result where
  "clean_view = \<lparr>ads_detected = True, error = None, number = 1\<rparr>"







section \<open>Properties of the session primitives\<close>

lemmas prim_defs = command_def emit_def sleep_def has_window_def here_def window_handles_def
  current_window_handle_def switch_to_window_def close_def get_title_def current_url_def
  get_def refresh_def find_element_def find_elements_def wait_until_def wait_clickable_def
  wait_present_def wait_visible_def open_pending_def click_def offset_click_def
  scroll_into_view_def script_click_def is_displayed_def is_enabled_def get_attribute_def

lemmas session_defs = two_popups_def one_unreachable_def blank_page_def

lemma window_handles_eq:
  "window_handles s =
     (if fault s (focus s) WindowHandles
      then (Inl WebDriverException, emit (Sent WindowHandles) s)
      else (Inr (handles s), emit (Sent WindowHandles) s))"
  by (simp add: prim_defs Let_def)

lemma handles_emit: "handles (emit e s) = handles s"
  by (simp add: emit_def)

lemma filter_eq_single: "distinct hs \<Longrightarrow> m \<in> set hs \<Longrightarrow> filter (\<lambda>x. x = m) hs = [m]"
  by (induction hs) (auto simp: filter_empty_conv)

section \<open>Properties of window reconciliation\<close>

subsection \<open>\<open>close_unexpected_windows\<close>\<close>

lemma close_others_handles:
  "close_others m hs b = (Inr u, b') \<Longrightarrow>
     handles b' = filter (\<lambda>x. x = m \<or> x \<notin> set hs) (handles b)"
proof (induction hs arbitrary: b)
  case Nil
  then show ?case by simp
next
  case (Cons h hs)
  show ?case
  proof (cases "h = m")
    case True
    with Cons show ?thesis by (auto intro: filter_cong)
  next
    case False
    from Cons.prems False obtain b3 where
      step: "close_others m hs b3 = (Inr u, b')" and
      h3: "handles b3 = removeAll h (handles b)"
      by (auto simp: prim_defs Let_def split: if_splits prod.splits sum.splits)
    from Cons.IH[OF step] h3 False show ?thesis
      by (auto simp: removeAll_filter_not_eq intro!: filter_cong)
  qed
qed

lemma focus_main_result:
  "focus_main m b = (Inr r, b') \<Longrightarrow>
     r = m \<and> m \<in> set (handles b) \<and> handles b' = handles b \<and> focus b' = m"
  by (auto simp: focus_main_def prim_defs Let_def split: if_splits prod.splits sum.splits)

lemma promote_handles:
  assumes "promote m b = (Inr r, b')" and "handles b = filter (\<lambda>x. x = m) hs" and "distinct hs"
  shows "r = m \<and> handles b' = [m] \<and> focus b' = m \<and> m \<in> set hs"
proof (cases "m \<in> set (handles b)")
  case True
  with assms(1) have "focus_main m (emit (Sent WindowHandles) b) = (Inr r, b')"
    by (auto simp: promote_def window_handles_eq handles_emit split: if_splits)
  from focus_main_result[OF this] True assms(2,3) show ?thesis
    by (auto simp: handles_emit filter_eq_single)
next
  case False
  with assms(2) have "handles b = []" by (auto simp: filter_empty_conv)
  with assms(1) False have "\<exists>s. focus_main m s = (Inr r, b') \<and> handles s = []"
    by (auto simp: promote_def window_handles_eq handles_emit split: if_splits)
  then show ?thesis using focus_main_result by fastforce
qed

lemma close_unexpected_windows_single:
  assumes "close_unexpected_windows m b = (Inr r, b')" and "distinct (handles b)"
  shows "r = m \<and> handles b' = [m] \<and> focus b' = m \<and> m \<in> set (handles b)"
proof -
  from assms(1) obtain u b2 where
    lp: "close_others m (handles b) (emit (Sent WindowHandles) b) = (Inr u, b2)" and
    pr: "promote m b2 = (Inr r, b')"
    by (auto simp: close_unexpected_windows_def window_handles_eq
        split: if_splits prod.splits sum.splits)
  from close_others_handles[OF lp] have h2: "handles b2 = filter (\<lambda>x. x = m) (handles b)"
    by (auto simp: handles_emit intro!: filter_cong)
  from promote_handles[OF pr h2 assms(2)] show ?thesis .
qed

subsection \<open>\<open>close_additional_windows\<close>\<close>

lemma switch_and_close_webdriver:
  "switch_and_close h b = (Inl e, b') \<Longrightarrow> webdriver_error e"
  by (auto simp: switch_and_close_def prim_defs Let_def split: prod.splits sum.splits if_splits)

lemma suppress_switch_and_close:
  "suppress (switch_and_close h) b = (Inr (), snd (switch_and_close h b))"
  using switch_and_close_webdriver[of h b]
  by (auto simp: suppress_def split: prod.splits sum.splits)

lemma suppress_switch:
  "suppress (switch_to_window p) b = (Inr (), snd (switch_to_window p b))"
  by (auto simp: suppress_def prim_defs Let_def split: prod.splits sum.splits)

lemma sac_fault: "fault (snd (switch_and_close h b)) = fault b"
  by (auto simp: switch_and_close_def prim_defs Let_def split: prod.splits sum.splits)

lemma sac_subset: "set (handles (snd (switch_and_close h b))) \<subseteq> set (handles b)"
  by (auto simp: switch_and_close_def prim_defs Let_def split: prod.splits sum.splits if_splits)

lemma sac_keeps:
  "p \<in> set (handles b) \<Longrightarrow> h \<noteq> p \<Longrightarrow> p \<in> set (handles (snd (switch_and_close h b)))"
  by (auto simp: switch_and_close_def prim_defs Let_def split: prod.splits sum.splits if_splits)

lemma sac_closes:
  "\<forall>f. \<not> fault b f (SwitchTo h) \<Longrightarrow> \<not> fault b h Close \<Longrightarrow>
     h \<notin> set (handles (snd (switch_and_close h b)))"
  by (auto simp: switch_and_close_def prim_defs Let_def split: prod.splits sum.splits if_splits)

lemma sac_trace:
  "\<exists>cs. trace (snd (switch_and_close h b)) = trace b @ map Sent (SwitchTo h # cs)"
proof -
  have "trace (snd (switch_and_close h b)) = trace b @ map Sent [SwitchTo h]
      \<or> trace (snd (switch_and_close h b)) = trace b @ map Sent [SwitchTo h, Close]"
    by (auto simp: switch_and_close_def prim_defs Let_def split: prod.splits sum.splits if_splits)
  then show ?thesis by blast
qed

lemma sac_no_fault:
  "no_fault b \<Longrightarrow> handles (snd (switch_and_close h b)) = removeAll h (handles b)"
  by (auto simp: no_fault_def switch_and_close_def prim_defs Let_def
      split: prod.splits sum.splits if_splits)

lemma close_secondary_step:
  "h \<noteq> p \<Longrightarrow> close_secondary p (h # hs) b = close_secondary p hs (snd (switch_and_close h b))"
  by (simp add: suppress_switch_and_close)

lemma close_secondary_returns: "fst (close_secondary p hs b) = Inr ()"
  by (induction hs arbitrary: b) (simp_all add: suppress_switch_and_close)

lemma close_secondary_fault: "fault (snd (close_secondary p hs b)) = fault b"
  by (induction hs arbitrary: b) (simp_all add: suppress_switch_and_close sac_fault)

lemma close_secondary_subset: "set (handles (snd (close_secondary p hs b))) \<subseteq> set (handles b)"
proof (induction hs arbitrary: b)
  case Nil
  then show ?case by simp
next
  case (Cons h hs)
  then show ?case using sac_subset[of h b]
    by (cases "h = p") (auto simp: suppress_switch_and_close)
qed

lemma close_secondary_keeps:
  "p \<in> set (handles b) \<Longrightarrow> p \<in> set (handles (snd (close_secondary p hs b)))"
  by (induction hs arbitrary: b) (simp_all add: suppress_switch_and_close sac_keeps)

lemma close_secondary_closes:
  "h \<in> set hs \<Longrightarrow> h \<noteq> p \<Longrightarrow> \<forall>f. \<not> fault b f (SwitchTo h) \<Longrightarrow> \<not> fault b h Close \<Longrightarrow>
     h \<notin> set (handles (snd (close_secondary p hs b)))"
proof (induction hs arbitrary: b)
  case Nil
  then show ?case by simp
next
  case (Cons a hs)
  show ?case
  proof (cases "a = p")
    case True
    with Cons show ?thesis by auto
  next
    case False
    let ?b1 = "snd (switch_and_close a b)"
    show ?thesis
    proof (cases "a = h")
      case True
      with Cons.prems have "h \<notin> set (handles ?b1)" using sac_closes by blast
      with close_secondary_subset[of p hs ?b1] False show ?thesis
        by (auto simp: suppress_switch_and_close)
    next
      case ah: False
      with Cons.prems have "h \<in> set hs" by simp
      moreover have "\<forall>f. \<not> fault ?b1 f (SwitchTo h)" "\<not> fault ?b1 h Close"
        using Cons.prems by (simp_all add: sac_fault)
      ultimately have "h \<notin> set (handles (snd (close_secondary p hs ?b1)))"
        using Cons.IH Cons.prems(2) by blast
      with False show ?thesis by (simp add: suppress_switch_and_close)
    qed
  qed
qed

lemma close_secondary_trace:
  "\<exists>cs. trace (snd (close_secondary p hs b)) = trace b @ map Sent cs \<and>
        (\<forall>h\<in>set hs. h \<noteq> p \<longrightarrow> SwitchTo h \<in> set cs)"
proof (induction hs arbitrary: b)
  case Nil
  show ?case by (rule exI[of _ "[]"]) simp
next
  case (Cons a hs)
  show ?case
  proof (cases "a = p")
    case True
    with Cons[of b] show ?thesis by auto
  next
    case False
    let ?b1 = "snd (switch_and_close a b)"
    from sac_trace[of a b] obtain c1 where c1: "trace ?b1 = trace b @ map Sent (SwitchTo a # c1)"
      by blast
    from Cons[of ?b1] obtain c2 where
      c2: "trace (snd (close_secondary p hs ?b1)) = trace ?b1 @ map Sent c2"
        "\<forall>h\<in>set hs. h \<noteq> p \<longrightarrow> SwitchTo h \<in> set c2" by blast
    show ?thesis
      by (rule exI[of _ "(SwitchTo a # c1) @ c2"])
         (use False c1 c2 in \<open>auto simp: suppress_switch_and_close\<close>)
  qed
qed

lemma close_secondary_no_fault:
  "no_fault b \<Longrightarrow>
     handles (snd (close_secondary p hs b)) = filter (\<lambda>x. x = p \<or> x \<notin> set hs) (handles b)"
proof (induction hs arbitrary: b)
  case Nil
  then show ?case by simp
next
  case (Cons a hs)
  show ?case
  proof (cases "a = p")
    case True
    with Cons show ?thesis by (auto intro!: filter_cong)
  next
    case False
    let ?b1 = "snd (switch_and_close a b)"
    have "no_fault ?b1" using Cons.prems by (simp add: no_fault_def sac_fault)
    from Cons.IH[OF this] sac_no_fault[OF Cons.prems, of a] False show ?thesis
      by (auto simp: removeAll_filter_not_eq suppress_switch_and_close intro!: filter_cong)
  qed
qed

text \<open>What the call is once the focused handle and the enumeration have been read.\<close>

lemma close_additional_windows_unfold:
  assumes "has_window b" "\<not> fault b (focus b) CurrentWindowHandle"
    "\<not> fault b (focus b) WindowHandles"
  shows "close_additional_windows b =
     (Inr (), snd (switch_to_window (focus b)
        (snd (close_secondary (focus b) (handles b)
           (emit (Sent WindowHandles) (emit (Sent CurrentWindowHandle) b))))))"
proof -
  let ?b0 = "emit (Sent WindowHandles) (emit (Sent CurrentWindowHandle) b)"
  obtain b3 where b3: "close_secondary (focus b) (handles b) ?b0 = (Inr (), b3)"
    using close_secondary_returns[of "focus b" "handles b" ?b0]
    by (cases "close_secondary (focus b) (handles b) ?b0") simp
  have "close_additional_windows b = (Inr (), snd (switch_to_window (focus b) b3))"
    using assms b3
    by (simp add: close_additional_windows_def current_window_handle_def window_handles_def
        command_def Let_def emit_def has_window_def suppress_switch)
  then show ?thesis by (simp add: b3)
qed

lemma final_switch_handles: "handles (snd (switch_to_window p b)) = handles b"
  by (simp add: prim_defs Let_def)

lemma final_switch_trace: "trace (snd (switch_to_window p b)) = trace b @ [Sent (SwitchTo p)]"
  by (simp add: prim_defs Let_def)

lemma final_switch_focus:
  "no_fault b \<Longrightarrow> p \<in> set (handles b) \<Longrightarrow> focus (snd (switch_to_window p b)) = p"
  by (simp add: prim_defs Let_def no_fault_def)

lemma close_additional_windows_single:
  assumes "no_fault b" "has_window b" "distinct (handles b)"
  shows "fst (close_additional_windows b) = Inr () \<and>
         handles (snd (close_additional_windows b)) = [focus b] \<and>
         focus (snd (close_additional_windows b)) = focus b"
proof -
  let ?b0 = "emit (Sent WindowHandles) (emit (Sent CurrentWindowHandle) b)"
  let ?b1 = "snd (close_secondary (focus b) (handles b) ?b0)"
  have nf0: "no_fault ?b0" using assms(1) by (simp add: no_fault_def emit_def)
  have eq: "close_additional_windows b = (Inr (), snd (switch_to_window (focus b) ?b1))"
    using close_additional_windows_unfold[OF assms(2)] assms(1) by (simp add: no_fault_def)
  have "handles ?b1 = filter (\<lambda>x. x = focus b) (handles b)"
    using close_secondary_no_fault[OF nf0, of "focus b" "handles b"]
    by (auto simp: handles_emit intro!: filter_cong)
  then have h1: "handles ?b1 = [focus b]"
    using assms(2,3) by (simp add: filter_eq_single has_window_def)
  have "no_fault ?b1" using nf0 by (simp add: no_fault_def close_secondary_fault)
  with h1 eq show ?thesis by (simp add: final_switch_handles final_switch_focus)
qed

lemmas reconcile_defs = close_unexpected_windows_def promote_def switch_to_first_def
  focus_main_def close_additional_windows_def switch_and_close_def suppress_def

text \<open>
  C1 (amended). Whenever \<open>close_unexpected_windows\<close> returns normally, the enumeration
  holds exactly one handle, the returned primary, which has the focus.
  \<open>close_additional_windows\<close> returns no value; when the focused window exists and no
  command fails, it returns normally and the enumeration holds exactly the handle that
  had the focus at entry, which has the focus again.
\<close>

theorem reconciliation_leaves_single_window:
  assumes "distinct (handles b)"
  shows "(fst (close_unexpected_windows m b) = Inr r \<longrightarrow>
            handles (snd (close_unexpected_windows m b)) = [r] \<and>
            focus (snd (close_unexpected_windows m b)) = r) \<and>
         (has_window b \<and> no_fault b \<longrightarrow>
            fst (close_additional_windows b) = Inr () \<and>
            handles (snd (close_additional_windows b)) = [focus b] \<and>
            focus (snd (close_additional_windows b)) = focus b)"
proof (intro conjI impI)
  assume r: "fst (close_unexpected_windows m b) = Inr r"
  then have "close_unexpected_windows m b = (Inr r, snd (close_unexpected_windows m b))"
    by (cases "close_unexpected_windows m b") simp
  from close_unexpected_windows_single[OF this assms]
  show "handles (snd (close_unexpected_windows m b)) = [r]"
    "focus (snd (close_unexpected_windows m b)) = r" by simp_all
next
  assume "has_window b \<and> no_fault b"
  then have *: "no_fault b" "has_window b" by simp_all
  from close_additional_windows_single[OF * assms]
  show "fst (close_additional_windows b) = Inr ()"
    "handles (snd (close_additional_windows b)) = [focus b]"
    "focus (snd (close_additional_windows b)) = focus b" by simp_all
qed

theorem reconciliation_leaves_single_window_witness:
  "distinct (handles two_popups) \<and>
   fst (close_unexpected_windows ''A'' two_popups) = Inr ''A'' \<and>
   handles (snd (close_unexpected_windows ''A'' two_popups)) = [''A''] \<and>
   focus (snd (close_unexpected_windows ''A'' two_popups)) = ''A'' \<and>
   has_window two_popups \<and> no_fault two_popups \<and>
   handles (snd (close_additional_windows two_popups)) = [''A'']"
proof -
  have d: "distinct (handles two_popups)" by (simp add: session_defs)
  have r: "fst (close_unexpected_windows ''A'' two_popups) = Inr ''A''"
    by (simp add: session_defs reconcile_defs prim_defs Let_def)
  have w: "has_window two_popups \<and> no_fault two_popups"
    by (simp add: session_defs has_window_def no_fault_def)
  have f: "focus two_popups = ''A''" by (simp add: session_defs)
  from reconciliation_leaves_single_window[OF d, of "''A''" "''A''"] d r w f
  show ?thesis by simp
qed

text \<open>
  C1, as stated, fails for \<open>close_additional_windows\<close>: with one ad window that cannot be
  switched to, the call returns normally and two windows are still open.
\<close>

theorem close_additional_windows_leaves_two:
  "fst (close_additional_windows one_unreachable) = Inr () \<and>
   handles (snd (close_additional_windows one_unreachable)) = [''A'', ''P1'']"
  by (simp add: session_defs reconcile_defs prim_defs Let_def)

text \<open>
  C5 (amended). In \<open>close_additional_windows\<close>, once the focused handle and the
  enumeration have been read, a failure while switching to or closing a secondary window
  is suppressed for that handle alone, without any log line: the call returns normally,
  every secondary handle is still switched to, every secondary handle whose switch and
  close do not fail is closed, and the primary window stays open.
\<close>

theorem close_additional_windows_absorbs_per_handle:
  assumes "has_window b" "\<not> fault b (focus b) CurrentWindowHandle"
    "\<not> fault b (focus b) WindowHandles"
  shows "fst (close_additional_windows b) = Inr () \<and>
         focus b \<in> set (handles (snd (close_additional_windows b))) \<and>
         (\<forall>h\<in>set (handles b). h \<noteq> focus b \<longrightarrow>
            Sent (SwitchTo h) \<in> set (trace (snd (close_additional_windows b))) \<and>
            ((\<forall>f. \<not> fault b f (SwitchTo h)) \<and> \<not> fault b h Close \<longrightarrow>
               h \<notin> set (handles (snd (close_additional_windows b))))) \<and>
         (\<exists>cs. trace (snd (close_additional_windows b)) = trace b @ map Sent cs)"
proof -
  let ?p = "focus b"
  let ?b0 = "emit (Sent WindowHandles) (emit (Sent CurrentWindowHandle) b)"
  let ?b1 = "snd (close_secondary ?p (handles b) ?b0)"
  have eq: "close_additional_windows b = (Inr (), snd (switch_to_window ?p ?b1))"
    by (rule close_additional_windows_unfold[OF assms])
  have f0: "fault ?b0 = fault b" and h0: "handles ?b0 = handles b"
    and t0: "trace ?b0 = trace b @ map Sent [CurrentWindowHandle, WindowHandles]"
    by (simp_all add: emit_def)
  from close_secondary_trace[of ?p "handles b" ?b0] obtain cs where
    cs: "trace ?b1 = trace ?b0 @ map Sent cs"
      "\<forall>h\<in>set (handles b). h \<noteq> ?p \<longrightarrow> SwitchTo h \<in> set cs" by blast
  have keep: "?p \<in> set (handles ?b1)"
    using close_secondary_keeps[of ?p ?b0 "handles b"] assms(1) by (simp add: h0 has_window_def)
  have closed: "h \<notin> set (handles ?b1)"
    if "h \<in> set (handles b)" "h \<noteq> ?p" "\<forall>f. \<not> fault b f (SwitchTo h)" "\<not> fault b h Close" for h
    using close_secondary_closes[of h "handles b" ?p ?b0] that by (simp add: f0)
  have tr: "trace (snd (close_additional_windows b)) =
      trace b @ map Sent ([CurrentWindowHandle, WindowHandles] @ cs @ [SwitchTo ?p])"
    by (simp add: eq final_switch_trace cs(1) t0)
  have "\<exists>cs'. trace (snd (close_additional_windows b)) = trace b @ map Sent cs'"
    using tr by blast
  moreover have "\<forall>h\<in>set (handles b). h \<noteq> ?p \<longrightarrow>
      Sent (SwitchTo h) \<in> set (trace (snd (close_additional_windows b)))"
    using cs(2) by (auto simp: tr)
  ultimately show ?thesis
    using keep closed by (simp add: eq final_switch_handles)
qed

theorem close_additional_windows_absorbs_per_handle_witness:
  "has_window one_unreachable \<and>
   fault one_unreachable ''A'' (SwitchTo ''P1'') \<and>
   fst (close_additional_windows one_unreachable) = Inr () \<and>
   ''P2'' \<notin> set (handles (snd (close_additional_windows one_unreachable)))"
proof -
  have a: "has_window one_unreachable"
    "\<not> fault one_unreachable (focus one_unreachable) CurrentWindowHandle"
    "\<not> fault one_unreachable (focus one_unreachable) WindowHandles"
    by (simp_all add: session_defs has_window_def)
  have b: "''P2'' \<in> set (handles one_unreachable)" "''P2'' \<noteq> focus one_unreachable"
    "\<forall>f. \<not> fault one_unreachable f (SwitchTo ''P2'')" "\<not> fault one_unreachable ''P2'' Close"
    "fault one_unreachable ''A'' (SwitchTo ''P1'')"
    by (simp_all add: session_defs)
  from close_additional_windows_absorbs_per_handle[OF a] a b show ?thesis by blast
qed

text \<open>
  C5, as stated, fails for \<open>close_unexpected_windows\<close>, which catches nothing: the failed
  switch to \<open>P1\<close> leaves the call as an exception, and \<open>P2\<close> is never visited.
\<close>

theorem close_unexpected_windows_propagates:
  "fst (close_unexpected_windows ''A'' one_unreachable) = Inl WebDriverException \<and>
   handles (snd (close_unexpected_windows ''A'' one_unreachable)) = [''A'', ''P1'', ''P2''] \<and>
   Sent (SwitchTo ''P2'') \<notin> set (trace (snd (close_unexpected_windows ''A'' one_unreachable)))"
  by (simp add: session_defs reconcile_defs prim_defs Let_def)

text \<open>
  C6. With the primary handle \<open>Z\<close> absent from the enumeration, the loop closes every
  window, so no handle is left to promote: the promotion branch is not reached and the
  final switch to \<open>Z\<close> raises.
\<close>

theorem absent_primary_raises:
  "fst (close_unexpected_windows ''Z'' two_popups) = Inl NoSuchWindowException \<and>
   handles (snd (close_unexpected_windows ''Z'' two_popups)) = [] \<and>
   (\<forall>s. Logged WARNING s \<notin> set (trace (snd (close_unexpected_windows ''Z'' two_popups))))"
  by (simp add: session_defs reconcile_defs prim_defs Let_def)

section \<open>Properties of overlay dismissal\<close>

lemmas frame_simps = emit_def sleep_def log_def locator_failed_def has_window_def here_def
  clickable_def obscured_def open_pending_def

lemma locator_pass_timeout_step:
  assumes "has_window b" "\<not> clickable b a" "\<not> fault b (focus b) (WaitClickable a OVERLAY_WAIT)"
  shows "locator_pass label (a # ls) b =
     locator_pass label ls
       (locator_failed label a TimeoutException
          (sleep OVERLAY_WAIT (emit (Sent (WaitClickable a OVERLAY_WAIT)) b)))"
  using assms
  by (auto simp: clickable_def prim_defs Let_def split: list.splits)

lemma locator_pass_click_step:
  assumes "has_window b" "clickable b l" "\<not> obscured b l"
    "\<not> fault b (focus b) (WaitClickable l OVERLAY_WAIT)" "\<not> fault b (focus b) (Click l)"
  shows "locator_pass label (l # ls) b =
     (Inr True, log label (''Closed via locator '' @ show_locator l)
        (open_pending (emit (Sent (Click l)) (emit (Sent (WaitClickable l OVERLAY_WAIT)) b))))"
  using assms
  by (auto simp: clickable_def obscured_def prim_defs Let_def split: list.splits)

lemma locator_pass_first_match:
  assumes "has_window b"
    and "\<forall>a\<in>set pre. \<not> clickable b a \<and> \<not> fault b (focus b) (WaitClickable a OVERLAY_WAIT)"
    and "clickable b l" "\<not> obscured b l"
    "\<not> fault b (focus b) (WaitClickable l OVERLAY_WAIT)" "\<not> fault b (focus b) (Click l)"
  shows "fst (locator_pass label (pre @ l # post) b) = Inr True \<and>
         trace (snd (locator_pass label (pre @ l # post) b)) =
           trace b @ concat (map (timed_out label) pre) @
             [Sent (WaitClickable l OVERLAY_WAIT), Sent (Click l),
              Printed label (''Closed via locator '' @ show_locator l)] \<and>
         clock (snd (locator_pass label (pre @ l # post) b)) = clock b + length pre * OVERLAY_WAIT \<and>
         handles (snd (locator_pass label (pre @ l # post) b)) = handles b @ pending b \<and>
         focus (snd (locator_pass label (pre @ l # post) b)) = focus b"
  using assms
proof (induction pre arbitrary: b)
  case Nil
  then show ?case by (simp del: locator_pass.simps add: locator_pass_click_step frame_simps)
next
  case (Cons a pre)
  let ?b1 = "locator_failed label a TimeoutException
          (sleep OVERLAY_WAIT (emit (Sent (WaitClickable a OVERLAY_WAIT)) b))"
  have step: "locator_pass label (a # pre @ l # post) b = locator_pass label (pre @ l # post) ?b1"
    using Cons.prems by (simp del: locator_pass.simps add: locator_pass_timeout_step)
  have frame: "handles ?b1 = handles b" "focus ?b1 = focus b" "pages ?b1 = pages b"
    "fault ?b1 = fault b" "pending ?b1 = pending b"
    "trace ?b1 = trace b @ timed_out label a" "clock ?b1 = clock b + OVERLAY_WAIT"
    by (simp_all add: frame_simps timed_out_def)
  have "fst (locator_pass label (pre @ l # post) ?b1) = Inr True \<and>
         trace (snd (locator_pass label (pre @ l # post) ?b1)) =
           trace ?b1 @ concat (map (timed_out label) pre) @
             [Sent (WaitClickable l OVERLAY_WAIT), Sent (Click l),
              Printed label (''Closed via locator '' @ show_locator l)] \<and>
         clock (snd (locator_pass label (pre @ l # post) ?b1)) = clock ?b1 + length pre * OVERLAY_WAIT \<and>
         handles (snd (locator_pass label (pre @ l # post) ?b1)) = handles ?b1 @ pending ?b1 \<and>
         focus (snd (locator_pass label (pre @ l # post) ?b1)) = focus ?b1"
    by (rule Cons.IH)
       (use Cons.prems frame in \<open>simp_all add: has_window_def clickable_def obscured_def here_def\<close>)
  then show ?case by (simp del: locator_pass.simps add: step frame)
qed

lemma popup_pass_timeout_step:
  assumes "has_window b" "\<not> clickable b a" "\<not> fault b (focus b) (WaitClickable a POPUP_WAIT)"
  shows "popup_pass (a # ls) b =
     popup_pass ls (sleep POPUP_WAIT (emit (Sent (WaitClickable a POPUP_WAIT)) b))"
  using assms
  by (auto simp: clickable_def popup_attempt_def prim_defs Let_def split: list.splits)

lemma popup_pass_click_step:
  assumes "has_window b" "clickable b l" "\<not> obscured b l"
    "\<not> fault b (focus b) (WaitClickable l POPUP_WAIT)" "\<not> fault b (focus b) (ScrollIntoView l)"
    "\<not> fault b (focus b) (Click l)"
  shows "popup_pass (l # ls) b =
     (Inr True, emit (Logged INFO (''Closed ad popup using locator '' @ str_locator l))
        (open_pending (emit (Sent (Click l)) (emit (Sent (ScrollIntoView l))
           (emit (Sent (WaitClickable l POPUP_WAIT)) b)))))"
  using assms
  by (auto simp: clickable_def obscured_def popup_attempt_def prim_defs Let_def split: list.splits)

lemma popup_pass_first_match:
  assumes "has_window b"
    and "\<forall>a\<in>set pre. \<not> clickable b a \<and> \<not> fault b (focus b) (WaitClickable a POPUP_WAIT)"
    and "clickable b l" "\<not> obscured b l"
    "\<not> fault b (focus b) (WaitClickable l POPUP_WAIT)" "\<not> fault b (focus b) (ScrollIntoView l)"
    "\<not> fault b (focus b) (Click l)"
  shows "fst (popup_pass (pre @ l # post) b) = Inr True \<and>
         trace (snd (popup_pass (pre @ l # post) b)) =
           trace b @ map (\<lambda>a. Sent (WaitClickable a POPUP_WAIT)) pre @
             [Sent (WaitClickable l POPUP_WAIT), Sent (ScrollIntoView l), Sent (Click l),
              Logged INFO (''Closed ad popup using locator '' @ str_locator l)] \<and>
         clock (snd (popup_pass (pre @ l # post) b)) = clock b + length pre * POPUP_WAIT"
  using assms
proof (induction pre arbitrary: b)
  case Nil
  then show ?case by (simp del: popup_pass.simps add: popup_pass_click_step frame_simps)
next
  case (Cons a pre)
  let ?b1 = "sleep POPUP_WAIT (emit (Sent (WaitClickable a POPUP_WAIT)) b)"
  have step: "popup_pass (a # pre @ l # post) b = popup_pass (pre @ l # post) ?b1"
    using Cons.prems by (simp del: popup_pass.simps add: popup_pass_timeout_step)
  have frame: "handles ?b1 = handles b" "focus ?b1 = focus b" "pages ?b1 = pages b"
    "fault ?b1 = fault b" "pending ?b1 = pending b"
    "trace ?b1 = trace b @ [Sent (WaitClickable a POPUP_WAIT)]" "clock ?b1 = clock b + POPUP_WAIT"
    by (simp_all add: frame_simps)
  have "fst (popup_pass (pre @ l # post) ?b1) = Inr True \<and>
         trace (snd (popup_pass (pre @ l # post) ?b1)) =
           trace ?b1 @ map (\<lambda>a. Sent (WaitClickable a POPUP_WAIT)) pre @
             [Sent (WaitClickable l POPUP_WAIT), Sent (ScrollIntoView l), Sent (Click l),
              Logged INFO (''Closed ad popup using locator '' @ str_locator l)] \<and>
         clock (snd (popup_pass (pre @ l # post) ?b1)) = clock ?b1 + length pre * POPUP_WAIT"
    by (rule Cons.IH)
       (use Cons.prems frame in \<open>simp_all add: has_window_def clickable_def obscured_def here_def\<close>)
  then show ?case by (simp del: popup_pass.simps add: step frame)
qed

lemma current_window_handle_ok:
  "has_window b \<Longrightarrow> \<not> fault b (focus b) CurrentWindowHandle \<Longrightarrow>
     current_window_handle b = (Inr (focus b), emit (Sent CurrentWindowHandle) b)"
  by (simp add: prim_defs Let_def)

text \<open>
  C2. Both dismissers try their locators in list order, each with its own wait. When the
  locators before \<open>l\<close> are not clickable and \<open>l\<close> is, the trace is one timed-out wait per
  earlier locator, then the wait and the click on \<open>l\<close>, and nothing after it: no later
  locator is tried. The clock shows one full timeout per earlier locator; with \<open>l\<close> the
  third entry, exactly two timeouts precede the click.
\<close>

theorem dismissers_first_match_wins:
  assumes "has_window b" and "\<forall>c. \<not> fault b (focus b) c"
    and "\<forall>a\<in>set pre. \<not> clickable b a"
    and "clickable b l" and "\<not> obscured b l"
  shows "fst (dismiss_overlay_with (pre @ l # post) d b) = Inr () \<and>
         trace (snd (dismiss_overlay_with (pre @ l # post) d b)) =
           trace b @ [Sent CurrentWindowHandle] @
             concat (map (timed_out (overlay_label d)) pre) @
             [Sent (WaitClickable l OVERLAY_WAIT), Sent (Click l),
              Printed (overlay_label d) (''Closed via locator '' @ show_locator l)] \<and>
         clock (snd (dismiss_overlay_with (pre @ l # post) d b)) =
           clock b + length pre * OVERLAY_WAIT \<and>
         fst (close_popup_with (pre @ l # post) b) = Inr True \<and>
         trace (snd (close_popup_with (pre @ l # post) b)) =
           trace b @ map (\<lambda>a. Sent (WaitClickable a POPUP_WAIT)) pre @
             [Sent (WaitClickable l POPUP_WAIT), Sent (ScrollIntoView l), Sent (Click l),
              Logged INFO (''Closed ad popup using locator '' @ str_locator l)] \<and>
         clock (snd (close_popup_with (pre @ l # post) b)) = clock b + length pre * POPUP_WAIT"
proof -
  let ?b0 = "emit (Sent CurrentWindowHandle) b"
  let ?r = "locator_pass (overlay_label d) (pre @ l # post) ?b0"
  have f0: "has_window ?b0" "\<forall>a\<in>set pre. \<not> clickable ?b0 a \<and>
      \<not> fault ?b0 (focus ?b0) (WaitClickable a OVERLAY_WAIT)"
    "clickable ?b0 l" "\<not> obscured ?b0 l"
    "\<not> fault ?b0 (focus ?b0) (WaitClickable l OVERLAY_WAIT)" "\<not> fault ?b0 (focus ?b0) (Click l)"
    using assms by (simp_all add: frame_simps)
  note lp = locator_pass_first_match[OF f0, of "overlay_label d" post]
  obtain s where s: "?r = (Inr True, s)" using lp by (cases ?r) simp
  have d: "dismiss_overlay_with (pre @ l # post) d b = (Inr (), s)"
    using assms(1,2) s
    by (simp del: locator_pass.simps add: dismiss_overlay_with_def current_window_handle_ok Let_def)
  have p0: "\<forall>a\<in>set pre. \<not> clickable b a \<and> \<not> fault b (focus b) (WaitClickable a POPUP_WAIT)"
    "\<not> fault b (focus b) (WaitClickable l POPUP_WAIT)" "\<not> fault b (focus b) (ScrollIntoView l)"
    "\<not> fault b (focus b) (Click l)"
    using assms by simp_all
  note pp = popup_pass_first_match[OF assms(1) p0(1) assms(4,5) p0(2,3,4), of post]
  obtain s' where s': "popup_pass (pre @ l # post) b = (Inr True, s')"
    using pp by (cases "popup_pass (pre @ l # post) b") simp
  have c: "close_popup_with (pre @ l # post) b = (Inr True, s')"
    using s' by (simp del: popup_pass.simps add: close_popup_with_def)
  have t0: "trace ?b0 = trace b @ [Sent CurrentWindowHandle]" "clock ?b0 = clock b"
    by (simp_all add: emit_def)
  show ?thesis
    using lp[unfolded s] pp[unfolded s'] by (simp add: d c t0)
qed

lemma third_close: "CLOSE_BUTTON_LOCATORS =
    take 2 CLOSE_BUTTON_LOCATORS @ third_close_locator # drop 3 CLOSE_BUTTON_LOCATORS"
  by (simp add: CLOSE_BUTTON_LOCATORS_def third_close_locator_def)

lemma third_popup: "popup_locators =
    take 2 popup_locators @ third_popup_locator # drop 3 popup_locators"
  by (simp add: popup_locators_def third_popup_locator_def)

theorem dismissers_first_match_wins_witness:
  "has_window third_clickable \<and>
   clickable third_clickable third_close_locator \<and>
   clickable third_clickable third_popup_locator \<and>
   fst (dismiss_initial_overlay [] third_clickable) = Inr () \<and>
   trace (snd (dismiss_initial_overlay [] third_clickable)) =
     [Sent CurrentWindowHandle] @
     concat (map (timed_out ''[overlay]'') (take 2 CLOSE_BUTTON_LOCATORS)) @
     [Sent (WaitClickable third_close_locator OVERLAY_WAIT), Sent (Click third_close_locator),
      Printed ''[overlay]'' (''Closed via locator '' @ show_locator third_close_locator)] \<and>
   clock (snd (dismiss_initial_overlay [] third_clickable)) = 2 * OVERLAY_WAIT \<and>
   fst (close_ad_popup_if_present third_clickable) = Inr True \<and>
   clock (snd (close_ad_popup_if_present third_clickable)) = 2 * POPUP_WAIT"
proof -
  have w: "has_window third_clickable" "\<forall>c. \<not> fault third_clickable (focus third_clickable) c"
    by (simp_all add: third_clickable_def has_window_def)
  have c1: "\<forall>a\<in>set (take 2 CLOSE_BUTTON_LOCATORS). \<not> clickable third_clickable a"
    "clickable third_clickable third_close_locator"
    "\<not> obscured third_clickable third_close_locator"
    by (simp_all add: third_clickable_def clickable_def obscured_def here_def plain_button_def
        CLOSE_BUTTON_LOCATORS_def third_close_locator_def XPATH_def CSS_SELECTOR_def zakryt_def)
  have c2: "\<forall>a\<in>set (take 2 popup_locators). \<not> clickable third_clickable a"
    "clickable third_clickable third_popup_locator"
    "\<not> obscured third_clickable third_popup_locator"
    by (simp_all add: third_clickable_def clickable_def obscured_def here_def plain_button_def
        popup_locators_def third_popup_locator_def XPATH_def zakryt_def)
  have t: "trace third_clickable = []" "clock third_clickable = 0"
    by (simp_all add: third_clickable_def)
  note a = dismissers_first_match_wins[OF w c1, of "drop 3 CLOSE_BUTTON_LOCATORS" "[]",
      folded third_close]
  note b = dismissers_first_match_wins[OF w c2, of "drop 3 popup_locators" "[]",
      folded third_popup]
  have l: "min (length CLOSE_BUTTON_LOCATORS) 2 = 2" "min (length popup_locators) 2 = 2"
    by (simp_all add: CLOSE_BUTTON_LOCATORS_def popup_locators_def)
  from a b w c1 c2 show ?thesis
    by (simp add: dismiss_initial_overlay_def close_ad_popup_if_present_def t l overlay_label_def)
qed



lemma locator_pass_none_clickable:
  assumes "has_window b"
    and "\<forall>a\<in>set ls. \<not> clickable b a \<and> \<not> fault b (focus b) (WaitClickable a OVERLAY_WAIT)"
  shows "fst (locator_pass label ls b) = Inr False \<and>
         same_windows b (snd (locator_pass label ls b)) \<and>
         trace (snd (locator_pass label ls b)) = trace b @ concat (map (timed_out label) ls) \<and>
         clock (snd (locator_pass label ls b)) = clock b + length ls * OVERLAY_WAIT"
  using assms
proof (induction ls arbitrary: b)
  case Nil
  then show ?case by (simp add: same_windows_def)
next
  case (Cons a ls)
  let ?b1 = "locator_failed label a TimeoutException
          (sleep OVERLAY_WAIT (emit (Sent (WaitClickable a OVERLAY_WAIT)) b))"
  have step: "locator_pass label (a # ls) b = locator_pass label ls ?b1"
    using Cons.prems by (simp del: locator_pass.simps add: locator_pass_timeout_step)
  have frame: "handles ?b1 = handles b" "focus ?b1 = focus b" "pages ?b1 = pages b"
    "fault ?b1 = fault b" "pending ?b1 = pending b"
    "trace ?b1 = trace b @ timed_out label a" "clock ?b1 = clock b + OVERLAY_WAIT"
    by (simp_all add: frame_simps timed_out_def)
  have "fst (locator_pass label ls ?b1) = Inr False \<and>
         same_windows ?b1 (snd (locator_pass label ls ?b1)) \<and>
         trace (snd (locator_pass label ls ?b1)) = trace ?b1 @ concat (map (timed_out label) ls) \<and>
         clock (snd (locator_pass label ls ?b1)) = clock ?b1 + length ls * OVERLAY_WAIT"
    by (rule Cons.IH)
       (use Cons.prems frame in \<open>simp_all add: has_window_def clickable_def here_def\<close>)
  then show ?case by (simp del: locator_pass.simps add: step frame same_windows_def)
qed


































lemma none_clickable_bare [simp]:
  "\<not> clickable bare_window a" "\<not> clickable popup_on_click a" "\<not> clickable address_unreadable a"
  by (simp_all add: clickable_def here_def bare_window_def popup_on_click_def
      address_unreadable_def)

lemma none_pressable_bare [simp]:
  "\<not> pressable bare_window a" "\<not> pressable popup_on_click a"
  by (simp_all add: pressable_def here_def bare_window_def popup_on_click_def)




lemma dismiss_address_fault:
  assumes "has_window b" and "\<not> fault b (focus b) CurrentWindowHandle"
    and "\<forall>a\<in>set ls. \<not> clickable b a \<and> \<not> fault b (focus b) (WaitClickable a OVERLAY_WAIT)"
    and "fault b (focus b) CurrentUrl"
  shows "fst (dismiss_overlay_with ls d b) = Inl WebDriverException"
proof -
  let ?label = "overlay_label d"
  let ?b0 = "emit (Sent CurrentWindowHandle) b"
  have cw: "current_window_handle b = (Inr (focus b), ?b0)"
    using assms(1,2) by (simp add: current_window_handle_ok)
  have f0: "has_window ?b0"
    "\<forall>a\<in>set ls. \<not> clickable ?b0 a \<and> \<not> fault ?b0 (focus ?b0) (WaitClickable a OVERLAY_WAIT)"
    using assms by (simp_all add: frame_simps)
  note lp = locator_pass_none_clickable[OF f0, of ?label]
  obtain b1 where b1: "locator_pass ?label ls ?b0 = (Inr False, b1)"
    using lp by (cases "locator_pass ?label ls ?b0") simp
  have "same_windows ?b0 b1" using lp b1 by simp
  then have "fault b1 (focus b1) CurrentUrl"
    using assms(4) by (simp add: same_windows_def emit_def)
  then have "fst (click_fallback ?label ls (focus b) b1) = Inl WebDriverException"
    by (simp add: click_fallback_def current_url_def command_def Let_def)
  then show ?thesis using cw b1 by (simp add: dismiss_overlay_with_def Let_def)
qed

text \<open>
  C8. \<open>driver.current_url\<close> and the two reads of \<open>driver.window_handles\<close> in the
  fallback are outside every \<open>try\<close>: when the first of them fails, after every locator
  has timed out, the failure leaves \<open>dismiss_initial_overlay\<close> as an exception.
\<close>

theorem address_read_propagates:
  "fst (dismiss_initial_overlay [] address_unreadable) = Inl WebDriverException"
proof -
  have a: "has_window address_unreadable"
    "\<not> fault address_unreadable (focus address_unreadable) CurrentWindowHandle"
    by (simp_all add: has_window_def address_unreadable_def bare_window_def)
  have f: "\<And>a. \<not> fault address_unreadable (focus address_unreadable)
      (WaitClickable a OVERLAY_WAIT)"
    "fault address_unreadable (focus address_unreadable) CurrentUrl"
    by (simp_all add: address_unreadable_def bare_window_def)
  have c: "\<forall>a\<in>set CLOSE_BUTTON_LOCATORS. \<not> clickable address_unreadable a \<and>
       \<not> fault address_unreadable (focus address_unreadable) (WaitClickable a OVERLAY_WAIT)"
    using f(1) by simp
  from dismiss_address_fault[OF a c f(2), of "[]"] show ?thesis
    by (simp add: dismiss_initial_overlay_def)
qed

section \<open>Properties of the ad wait\<close>

lemma wait_present_found:
  assumes "has_window b" "\<not> fault b (focus b) (WaitPresent l t)" "present b l"
  shows "\<exists>e. wait_present l t b = (Inr e, emit (Sent (WaitPresent l t)) b)"
  using assms
  by (auto simp: present_def prim_defs Let_def split: list.splits)

lemma wait_present_absent:
  assumes "has_window b" "\<not> fault b (focus b) (WaitPresent l t)" "\<not> present b l"
  shows "wait_present l t b = (Inl TimeoutException, sleep t (emit (Sent (WaitPresent l t)) b))"
  using assms
  by (auto simp: present_def prim_defs Let_def split: list.splits)

lemma wait_for_any_result:
  assumes "has_window b" and "\<forall>c. \<not> fault b (focus b) c"
  shows "fst (wait_for_any ls t b) = Inr (\<exists>l\<in>set ls. present b l) \<and>
         same_windows b (snd (wait_for_any ls t b)) \<and>
         trace (snd (wait_for_any ls t b)) =
           trace b @ map (\<lambda>l. Sent (WaitPresent l t)) (consulted b ls) \<and>
         clock (snd (wait_for_any ls t b)) =
           clock b + t * length (takeWhile (\<lambda>l. \<not> present b l) ls)"
  using assms
proof (induction ls arbitrary: b)
  case Nil
  then show ?case by (simp add: same_windows_def consulted_def)
next
  case (Cons l ls)
  show ?case
  proof (cases "present b l")
    case True
    from wait_present_found[OF Cons.prems(1) _ True, of t] Cons.prems(2)
    obtain e where "wait_present l t b = (Inr e, emit (Sent (WaitPresent l t)) b)" by auto
    then show ?thesis using True
      by (simp add: same_windows_def consulted_def emit_def)
  next
    case False
    let ?b1 = "sleep t (emit (Sent (WaitPresent l t)) b)"
    have w: "wait_present l t b = (Inl TimeoutException, ?b1)"
      using wait_present_absent[OF Cons.prems(1) _ False, of t] Cons.prems(2) by simp
    have frame: "has_window ?b1" "\<forall>c. \<not> fault ?b1 (focus ?b1) c" "same_windows b ?b1"
      "\<And>a. present ?b1 a = present b a" "trace ?b1 = trace b @ [Sent (WaitPresent l t)]"
      "clock ?b1 = clock b + t"
      using Cons.prems
      by (simp_all add: same_windows_def has_window_def present_def here_def emit_def sleep_def)
    have c: "consulted ?b1 ls = consulted b ls"
      "takeWhile (\<lambda>l. \<not> present ?b1 l) ls = takeWhile (\<lambda>l. \<not> present b l) ls"
      by (simp_all add: consulted_def frame(4))
    from Cons.IH[OF frame(1,2)] show ?thesis
      using w False frame(3,5,6)
      by (simp add: c frame(4) same_windows_def consulted_def)
  qed
qed

lemma same_windows_wait:
  assumes "same_windows b b'" "has_window b" "\<forall>c. \<not> fault b (focus b) c"
  shows "has_window b'" "\<forall>c. \<not> fault b' (focus b') c" "\<And>a. present b' a = present b a"
  using assms by (simp_all add: same_windows_def has_window_def present_def here_def)

text \<open>
  C3 (amended). In a session whose focused window exists and answers every command,
  \<open>wait_for_ads\<close> waits for its locators one after the other, each for up to the timeout:
  it returns true at the first locator that is present, and consults no later one; it
  returns false when none is present, after a full timeout for each. A wait ends at once
  only when its own locator is present, so the time spent is one timeout per absent
  locator ahead of the first present one. The call changes nothing but trace and clock, and
  a repeated call returns the same value.
\<close>

theorem wait_for_ads_sequential:
  assumes "has_window b" and "\<forall>c. \<not> fault b (focus b) c"
  shows "fst (wait_for_ads t b) = Inr (\<exists>l\<in>set AD_IDENTIFIERS. present b l) \<and>
         trace (snd (wait_for_ads t b)) =
           trace b @ map (\<lambda>l. Sent (WaitPresent l t)) (consulted b AD_IDENTIFIERS) \<and>
         clock (snd (wait_for_ads t b)) =
           clock b + t * length (takeWhile (\<lambda>l. \<not> present b l) AD_IDENTIFIERS) \<and>
         same_windows b (snd (wait_for_ads t b)) \<and>
         fst (wait_for_ads t (snd (wait_for_ads t b))) = fst (wait_for_ads t b)"
proof -
  note r = wait_for_any_result[OF assms, of AD_IDENTIFIERS t]
  let ?b' = "snd (wait_for_any AD_IDENTIFIERS t b)"
  have sw: "same_windows b ?b'" using r by simp
  note again = wait_for_any_result[OF same_windows_wait(1,2)[OF sw assms], of AD_IDENTIFIERS t]
  have "fst (wait_for_any AD_IDENTIFIERS t ?b') = fst (wait_for_any AD_IDENTIFIERS t b)"
    using again r same_windows_wait(3)[OF sw assms] by simp
  with r show ?thesis by (simp add: wait_for_ads_def)
qed

theorem wait_for_ads_sequential_witness:
  "has_window script_only \<and> present script_only script_locator \<and>
   fst (wait_for_ads WAIT_TIMEOUT script_only) = Inr True \<and>
   fst (wait_for_ads WAIT_TIMEOUT (snd (wait_for_ads WAIT_TIMEOUT script_only))) = Inr True"
proof -
  have a: "has_window script_only" "\<forall>c. \<not> fault script_only (focus script_only) c"
    by (simp_all add: has_window_def script_only_def)
  have p: "present script_only script_locator"
    by (simp add: present_def here_def script_only_def)
  have m: "script_locator \<in> set AD_IDENTIFIERS"
    by (simp add: AD_IDENTIFIERS_def script_locator_def)
  from wait_for_ads_sequential[OF a, of WAIT_TIMEOUT] a p m show ?thesis by auto
qed

text \<open>
  C3, as stated, fails: the script resource is on the page from the start, and the call
  still spends the whole timeout on the iframe locator before it returns true.
\<close>

theorem wait_for_ads_not_at_once:
  "present script_only script_locator \<and>
   fst (wait_for_ads WAIT_TIMEOUT script_only) = Inr True \<and>
   clock (snd (wait_for_ads WAIT_TIMEOUT script_only)) = clock script_only + WAIT_TIMEOUT"
proof -
  have a: "has_window script_only" "\<forall>c. \<not> fault script_only (focus script_only) c"
    by (simp_all add: has_window_def script_only_def)
  have p: "present script_only script_locator"
    "\<not> present script_only (CSS_SELECTOR, ''iframe[src*='' @ [CHR 0x27] @ ''monetag'' @ [CHR 0x27] @ '']'')"
    by (simp_all add: present_def here_def script_only_def script_locator_def CSS_SELECTOR_def)
  have l: "AD_IDENTIFIERS =
      [(CSS_SELECTOR, ''iframe[src*='' @ [CHR 0x27] @ ''monetag'' @ [CHR 0x27] @ '']''), script_locator]"
    by (simp add: AD_IDENTIFIERS_def script_locator_def)
  from wait_for_any_result[OF a, of AD_IDENTIFIERS WAIT_TIMEOUT] p show ?thesis
    unfolding wait_for_ads_def l by simp
qed

section \<open>Properties of the exit status\<close>

text \<open>
  C9 (amended). The \<open>main\<close> of monetag\_ad\_tester returns 0 exactly when every view
  recorded no error and detected ads, and 2 otherwise. The \<open>main\<close> of the navigation
  tester and of the play-button tester return 0 for every run that returned its results,
  whatever the cycles recorded: the navigation tester prints the number of cycles with
  an error when there is one, and otherwise the number of cycles with ad activity out of
  all cycles; the play-button tester prints the number of attempts, of attempts with ad
  activity and of attempts with an error. Each of the three returns 1, after one line
  naming the failure, when the run raised a \<open>WebDriverException\<close>.
\<close>

theorem exit_status_of_the_testers:
  "(fst (main_ad_tester (Inr views)) = Inr 0 \<longleftrightarrow>
      (\<forall>r\<in>set views. \<not> truthy (error r) \<and> ads_detected r)) \<and>
   (fst (main_ad_tester (Inr views)) \<noteq> Inr 0 \<longrightarrow> fst (main_ad_tester (Inr views)) = Inr 2) \<and>
   (webdriver_error e \<longrightarrow>
      main_ad_tester (Inl e) = (Inr 1, [''Failed to initialise Edge WebDriver: '' @ str_exn e]) \<and>
      main_nav_click_tester (Inl e) =
        (Inr 1, [''Failed to initialise Edge WebDriver: '' @ str_exn e]) \<and>
      main_play_button_tester (Inl e) =
        (Inr 1, [''Failed to initialise Edge WebDriver: '' @ str_exn e])) \<and>
   fst (main_nav_click_tester (Inr clicks)) = Inr 0 \<and>
   snd (main_nav_click_tester (Inr clicks)) =
     [if \<exists>r\<in>set clicks. truthy (error r)
      then newline # ''Completed with '' @
           str_nat (length (filter (\<lambda>r. truthy (error r)) clicks)) @ '' error(s).''
      else newline # str_nat (length (filter ads_detected clicks)) @ '' of '' @
           str_nat (length clicks) @ '' interactions surfaced Monetag ad activity.''] \<and>
   fst (main_play_button_tester (Inr attempts)) = Inr 0 \<and>
   snd (main_play_button_tester (Inr attempts)) =
     [newline # ''Completed '' @ str_nat (length attempts) @ '' attempts '' @
      rightwards_arrow @ '' '' @ str_nat (length (filter ads_detected attempts)) @
      '' with ad activity, '' @
      str_nat (length (filter (\<lambda>r. truthy (error r)) attempts)) @ '' errors.'']"
proof -
  have ad: "(fst (main_ad_tester (Inr views)) = Inr 0 \<longleftrightarrow>
      (\<forall>r\<in>set views. \<not> truthy (error r) \<and> ads_detected r)) \<and>
    (fst (main_ad_tester (Inr views)) \<noteq> Inr 0 \<longrightarrow> fst (main_ad_tester (Inr views)) = Inr 2)"
    by (auto simp: main_ad_tester_def Let_def filter_empty_conv)
  have raised: "webdriver_error e \<longrightarrow>
      main_ad_tester (Inl e) = (Inr 1, [''Failed to initialise Edge WebDriver: '' @ str_exn e]) \<and>
      main_nav_click_tester (Inl e) =
        (Inr 1, [''Failed to initialise Edge WebDriver: '' @ str_exn e]) \<and>
      main_play_button_tester (Inl e) =
        (Inr 1, [''Failed to initialise Edge WebDriver: '' @ str_exn e])"
    by (simp add: main_ad_tester_def main_nav_click_tester_def main_play_button_tester_def
        initialise_failed_def)
  have nav: "fst (main_nav_click_tester (Inr clicks)) = Inr 0 \<and>
    snd (main_nav_click_tester (Inr clicks)) =
     [if \<exists>r\<in>set clicks. truthy (error r)
      then newline # ''Completed with '' @
           str_nat (length (filter (\<lambda>r. truthy (error r)) clicks)) @ '' error(s).''
      else newline # str_nat (length (filter ads_detected clicks)) @ '' of '' @
           str_nat (length clicks) @ '' interactions surfaced Monetag ad activity.'']"
    by (simp add: main_nav_click_tester_def Let_def filter_empty_conv)
  have play: "fst (main_play_button_tester (Inr attempts)) = Inr 0 \<and>
    snd (main_play_button_tester (Inr attempts)) =
     [newline # ''Completed '' @ str_nat (length attempts) @ '' attempts '' @
      rightwards_arrow @ '' '' @ str_nat (length (filter ads_detected attempts)) @
      '' with ad activity, '' @
      str_nat (length (filter (\<lambda>r. truthy (error r)) attempts)) @ '' errors.'']"
    by (simp add: main_play_button_tester_def Let_def)
  from ad raised nav play show ?thesis by blast
qed

lemma str_nat_digits:
  "str_nat 0 = ''0''" "str_nat 1 = ''1''" "str_nat (Suc 0) = ''1''" "str_nat 2 = ''2''"
  by (simp_all add: digit_def)

theorem exit_status_of_the_testers_witness:
  "fst (main_ad_tester (Inr [clean_view])) = Inr 0 \<and>
   fst (main_ad_tester (Inr [clean_view, clean_view\<lparr>ads_detected := False\<rparr>])) = Inr 2 \<and>
   fst (main_ad_tester (Inl WebDriverException)) = Inr 1 \<and>
   fst (main_nav_click_tester (Inl WebDriverException)) = Inr 1 \<and>
   fst (main_play_button_tester (Inl WebDriverException)) = Inr 1 \<and>
   main_nav_click_tester (Inr [clean_click, failed_click]) =
     (Inr 0, [newline # ''Completed with 1 error(s).'']) \<and>
   main_nav_click_tester (Inr [clean_click]) =
     (Inr 0, [newline # ''1 of 1 interactions surfaced Monetag ad activity.''])"
proof -
  have a: "\<forall>r\<in>set [clean_view]. \<not> truthy (error r) \<and> ads_detected r"
    by (simp add: clean_view_def)
  have b: "\<not> (\<forall>r\<in>set [clean_view, clean_view\<lparr>ads_detected := False\<rparr>].
      \<not> truthy (error r) \<and> ads_detected r)"
    by simp
  have c: "webdriver_error WebDriverException" by simp
  have v: "truthy (error failed_click)" "\<not> truthy (error clean_click)"
    "ads_detected clean_click"
    by (simp_all add: failed_click_def clean_click_def)
  note t1 = exit_status_of_the_testers[of "[clean_view]" WebDriverException
      "[clean_click, failed_click]" "[]"]
  note t2 = exit_status_of_the_testers[of "[clean_view, clean_view\<lparr>ads_detected := False\<rparr>]"
      WebDriverException "[clean_click]" "[]"]
  have ad: "fst (main_ad_tester (Inr [clean_view])) = Inr 0"
    "fst (main_ad_tester (Inr [clean_view, clean_view\<lparr>ads_detected := False\<rparr>])) = Inr 2"
    using t1 t2 a b by blast+
  have raised: "fst (main_ad_tester (Inl WebDriverException)) = Inr 1"
    "fst (main_nav_click_tester (Inl WebDriverException)) = Inr 1"
    "fst (main_play_button_tester (Inl WebDriverException)) = Inr 1"
    using t1 c by simp_all
  have n1: "main_nav_click_tester (Inr [clean_click, failed_click]) =
     (Inr 0, [newline # ''Completed with 1 error(s).''])"
    using t1 v by (simp add: prod_eq_iff str_nat_digits del: str_nat.simps)
  have n2: "main_nav_click_tester (Inr [clean_click]) =
     (Inr 0, [newline # ''1 of 1 interactions surfaced Monetag ad activity.''])"
    using t2 v by (simp add: prod_eq_iff str_nat_digits del: str_nat.simps)
  from ad raised n1 n2 show ?thesis by simp
qed

text \<open>
  C9, as stated, fails for the navigation tester: a run in which a cycle recorded an
  error still ends with exit status 0.
\<close>

theorem nav_exit_status_ignores_errors:
  "truthy (error failed_click) \<and>
   fst (main_nav_click_tester (Inr [clean_click, failed_click])) = Inr 0"
  by (simp add: failed_click_def main_nav_click_tester_def Let_def)

section \<open>Properties of ad signal detection\<close>

lemma contains_sublist: "contains k d \<longleftrightarrow> sublist k d"
  by (induction d) (auto simp: sublist_Cons_right)




















end
